theory Spec2Isabelle
  imports Complex_Main
begin

section \<open>Strings\<close>

text \<open>
  A JavaScript string is a sequence of code units; it is modelled as a \<open>string\<close>
  (a list of characters), so that \<open>length\<close> is the string's \<open>.length\<close>.
\<close>

definition is_digit :: "char \<Rightarrow> bool" where
  "is_digit c = (c \<in> set ''0123456789'')"

text \<open>The class \<open>\s\<close> of a regular expression, on the code units a \<open>char\<close> can hold.\<close>

definition is_space :: "char \<Rightarrow> bool" where
  "is_space c = (c \<in> set [CHR 0x09, CHR 0x0A, CHR 0x0B, CHR 0x0C, CHR 0x0D, CHR 0x20, CHR 0xA0])"

text \<open>\<open>parts.join(sep)\<close>\<close>

fun join :: "string \<Rightarrow> string list \<Rightarrow> string" where
  "join sep [] = []"
| "join sep [p] = p"
| "join sep (p # q # ps) = p @ sep @ join sep (q # ps)"

text \<open>\<open>value.substring(a, b)\<close> for indices \<open>0 \<le> a \<le> b\<close> (the end is clamped to the length).\<close>

definition substring :: "string \<Rightarrow> nat \<Rightarrow> nat \<Rightarrow> string" where
  "substring s a b = take (b - a) (drop a s)"

text \<open>
  The pieces \<open>value.substring(i, i + 4)\<close> for \<open>i = 0, 4, 8, ...\<close> below the length:
  the loop of the \<open>card\<close> case, and what \<open>match(/.{1,4}/g)\<close> returns on a string
  without line terminators.
\<close>

fun chunks4 :: "nat \<Rightarrow> string \<Rightarrow> string list" where
  "chunks4 0 s = []"
| "chunks4 (Suc n) s = (if s = [] then [] else take 4 s # chunks4 n (drop 4 s))"

section \<open>Properties that every object inherits\<close>

text \<open>
  An object written as a literal (or made by \<open>JSON.parse\<close>) has the prototype
  \<open>Object.prototype\<close>, so that \<open>obj[key]\<close> finds, besides the object's own properties,
  the properties of that prototype. These are their names.
\<close>

definition Object_prototype :: "string list" where
  "Object_prototype =
     [''constructor'', ''__defineGetter__'', ''__defineSetter__'', ''hasOwnProperty'',
      ''__lookupGetter__'', ''__lookupSetter__'', ''isPrototypeOf'', ''propertyIsEnumerable'',
      ''toString'', ''valueOf'', ''__proto__'', ''toLocaleString'']"

text \<open>
  What \<open>obj[key]\<close> finds: an own property (its value), or the inherited property of
  that name.
\<close>

datatype 'a property = Own 'a | Inherited string

text \<open>
  \<open>obj[key]\<close> on such an object, given by its own entries; \<open>None\<close> is \<open>undefined\<close>.
\<close>

definition get_property :: "(string \<times> 'a) list \<Rightarrow> string \<Rightarrow> 'a property option" where
  "get_property entries key =
     (case map_of entries key of
        Some x \<Rightarrow> Some (Own x)
      | None \<Rightarrow> if key \<in> set Object_prototype then Some (Inherited key) else None)"

text \<open>
  \<open>String(x)\<close> for an inherited property \<open>x\<close>: the source text of a built-in function
  (\<open>constructor\<close> is the function \<open>Object\<close>), and \<open>[object Object]\<close> for the
  prototype itself, which is what \<open>__proto__\<close> reads.
\<close>

definition inherited_text :: "string \<Rightarrow> string" where
  "inherited_text member =
     (if member = ''__proto__'' then ''[object Object]''
      else ''function '' @ (if member = ''constructor'' then ''Object'' else member)
           @ ''() { [native code] }'')"

section \<open>Error classes\<close>

text \<open>
  Everything the code can throw. \<open>NonError\<close> is a thrown value that is not an instance
  of \<open>Error\<close> (a thrown string, say); \<open>Error\<close> is a plain \<open>Error(message)\<close>;
  \<open>RangeError\<close> and \<open>TypeError\<close> are the built-in classes, with their message;
  the others are the classes of the errors module, with the arguments of their
  constructors. \<open>PluginError\<close> carries its context as the list of its entries.
  The type given to \<open>MaskerNotFoundError\<close> is whatever a property access has found.
\<close>

datatype thrown =
    NonError string
  | Error string
  | RangeError string
  | TypeError string
  | InvalidValueError string
  | InvalidStrategyError string
  | InvalidFormatError string
  | PluginError string string "(string \<times> string) list"
  | PluginNotFoundError string
  | InvalidFieldPathError string
  | CircularReferenceError string
  | MaskerNotFoundError "string property"
  | PluginRegistrationError string string
  | PluginInitError string string "thrown option"
  | PluginDependencyError string string string

text \<open>\<open>error instanceof Error\<close>\<close>

fun instanceof_Error :: "thrown \<Rightarrow> bool" where
  "instanceof_Error (NonError v) = False"
| "instanceof_Error e = True"

text \<open>\<open>error.message\<close>, as each constructor passes it to \<open>super\<close>.\<close>

fun message :: "thrown \<Rightarrow> string" where
  "message (NonError v) = []"
| "message (Error m) = m"
| "message (RangeError m) = m"
| "message (TypeError m) = m"
| "message (InvalidValueError m) = m"
| "message (InvalidStrategyError strategy) = ''Invalid masking strategy: '' @ strategy"
| "message (InvalidFormatError format) = ''Invalid masking format: '' @ format"
| "message (PluginError m pluginName ctx) = m"
| "message (PluginNotFoundError pluginName) = ''Plugin not found: '' @ pluginName"
| "message (InvalidFieldPathError path) = ''Invalid field path: '' @ path"
| "message (CircularReferenceError path) = ''Circular reference detected at path: '' @ path"
| "message (MaskerNotFoundError (Own type)) = ''Masker not found for type: '' @ type"
| "message (MaskerNotFoundError (Inherited member)) =
     ''Masker not found for type: '' @ inherited_text member"
| "message (PluginRegistrationError m pluginName) = m"
| "message (PluginInitError m pluginName cause) = m"
| "message (PluginDependencyError m pluginName dependency) = m"

text \<open>\<open>error.code\<close>; the built-in errors have none.\<close>

fun code :: "thrown \<Rightarrow> string option" where
  "code (NonError v) = None"
| "code (Error m) = None"
| "code (RangeError m) = None"
| "code (TypeError m) = None"
| "code (InvalidValueError m) = Some ''INVALID_VALUE''"
| "code (InvalidStrategyError strategy) = Some ''INVALID_STRATEGY''"
| "code (InvalidFormatError format) = Some ''INVALID_FORMAT''"
| "code (PluginError m pluginName ctx) = Some ''PLUGIN_ERROR''"
| "code (PluginNotFoundError pluginName) = Some ''PLUGIN_NOT_FOUND''"
| "code (InvalidFieldPathError path) = Some ''INVALID_FIELD_PATH''"
| "code (CircularReferenceError path) = Some ''CIRCULAR_REFERENCE''"
| "code (MaskerNotFoundError type) = Some ''MASKER_NOT_FOUND''"
| "code (PluginRegistrationError m pluginName) = Some ''PLUGIN_REGISTRATION_ERROR''"
| "code (PluginInitError m pluginName cause) = Some ''PLUGIN_INIT_ERROR''"
| "code (PluginDependencyError m pluginName dependency) = Some ''PLUGIN_DEPENDENCY_ERROR''"

section \<open>Handler tables\<close>

text \<open>
  What a call through a handler table returns. The handlers of the tables return
  strings; the functions a table inherits can also return a boolean or a \<open>String\<close>
  object (the wrapper of a string).
\<close>

datatype returned = Str string | Bool bool | StringObject string

text \<open>
  A call \<open>handler(value, ...)\<close> where \<open>handler\<close> is an inherited property and \<open>value\<close>
  a string. The call has no receiver (\<open>this\<close> is \<open>undefined\<close>): \<open>constructor\<close> is
  \<open>Object\<close>, which wraps its argument; \<open>isPrototypeOf\<close> answers \<open>false\<close> for an
  argument that is no object; \<open>toString\<close> names the missing receiver; \<open>__proto__\<close>
  reads the prototype, which is no function; the other functions need a receiver and
  throw. (The wording of the messages is the engine's; these are the messages of V8.)
\<close>

definition call_inherited :: "string \<Rightarrow> string \<Rightarrow> thrown + returned" where
  "call_inherited member v =
     (if member = ''constructor'' then Inr (StringObject v)
      else if member = ''isPrototypeOf'' then Inr (Bool False)
      else if member = ''toString'' then Inr (Str ''[object Undefined]'')
      else if member = ''__proto__'' then Inl (TypeError ''handler is not a function'')
      else if member = ''toLocaleString'' then
        Inl (TypeError ''Object.prototype.toLocaleString called on null or undefined'')
      else Inl (TypeError ''Cannot convert undefined or null to object''))"

section \<open>Output formats\<close>

text \<open>
  The match of \<open>/^(\+\d{1,4})(\d+)$/\<close>: a plus sign followed by at least two digits
  and nothing else. The first group is greedy but leaves one digit to the second, so it
  takes \<open>min 4 (n - 1)\<close> of the \<open>n\<close> digits.
\<close>

definition match_country_code :: "string \<Rightarrow> (string \<times> string) option" where
  "match_country_code v =
     (case v of
        [] \<Rightarrow> None
      | c # ds \<Rightarrow>
          if c = CHR ''+'' \<and> list_all is_digit ds \<and> 2 \<le> length ds
          then (let k = min 4 (length ds - 1) in Some (c # take k ds, drop k ds))
          else None)"

definition formats_display :: "string \<Rightarrow> string \<Rightarrow> string" where
  "formats_display v type =
     (if type = ''card'' then join '' '' (chunks4 (length v) v)
      else if type = ''phone'' then
        (let digits = filter is_digit v;
             formatted =
               (if CHR ''+'' \<in> set v then
                  (case match_country_code v of
                     Some (countryCode, number) \<Rightarrow>
                       if 10 \<le> length number
                       then Some (countryCode @ '' '' @ substring number 0 3 @ '' ''
                                  @ substring number 3 6 @ '' '' @ substring number 6 10)
                       else None
                   | None \<Rightarrow> None)
                else None)
         in case formatted of
              Some r \<Rightarrow> r
            | None \<Rightarrow>
                if 10 \<le> length digits
                then ''('' @ substring digits 0 3 @ '') '' @ substring digits 3 6
                     @ ''-'' @ substring digits 6 10
                else v)
      else if type = ''iban'' then
        (let stripped = filter (\<lambda>c. \<not> is_space c) v;
             groups = chunks4 (length stripped) stripped
         in if groups \<noteq> [] then join '' '' groups else v)
      else v)"

definition formats_compact :: "string \<Rightarrow> string \<Rightarrow> string" where
  "formats_compact v type = filter (\<lambda>c. \<not> is_space c) v"

definition formats_log :: "string \<Rightarrow> string \<Rightarrow> string" where
  "formats_log v type = ''[REDACTED:'' @ type @ '']''"

text \<open>
  The table \<open>formats\<close> is an object literal with three own properties;
  \<open>formats[format]\<close> is a property access on it.
\<close>

definition formats :: "string \<Rightarrow> (string \<Rightarrow> string \<Rightarrow> string) property option" where
  "formats format =
     get_property
       [(''display'', formats_display), (''compact'', formats_compact), (''log'', formats_log)]
       format"

text \<open>Every property the access can find is truthy, so only \<open>undefined\<close> throws.\<close>

definition applyFormat :: "string \<Rightarrow> string \<Rightarrow> string \<Rightarrow> thrown + returned" where
  "applyFormat v type format =
     (case formats format of
        None \<Rightarrow> Inl (InvalidFormatError format)
      | Some (Own handler) \<Rightarrow> Inr (Str (handler v type))
      | Some (Inherited member) \<Rightarrow> call_inherited member v)"

definition isValidFormat :: "string \<Rightarrow> bool" where
  "isValidFormat format = (format = ''display'' \<or> format = ''compact'' \<or> format = ''log'')"

section \<open>Numbers\<close>

text \<open>
  A JavaScript number is a double: \<open>NaN\<close>, one of the two infinities, or a finite
  value, kept here as the rational it stands for. Every operation that can leave the
  doubles rounds its exact result to the nearest double (\<open>round_double\<close> below). The
  sign of zero is not kept: the code modelled here never divides by a number and never
  prints one, and nothing else tells \<open>-0\<close> from \<open>0\<close>.
\<close>

datatype jsnum = NaN | NegInf | Fin rat | PosInf

text \<open>The position of the leading bit of \<open>n\<close>: the \<open>k\<close> with \<open>2 ^ k \<le> n < 2 ^ (k + 1)\<close>.\<close>

function ilog2 :: "int \<Rightarrow> nat" where
  "ilog2 n = (if n < 2 then 0 else Suc (ilog2 (n div 2)))"
  by pat_completeness auto

termination
  by (relation "measure nat") auto

declare ilog2.simps [simp del]

text \<open>The integer nearest to \<open>x\<close>, the even one when two are equally near.\<close>

definition round_even :: "rat \<Rightarrow> int" where
  "round_even x =
     (let f = \<lfloor>x\<rfloor>; d = x - of_int f
      in if d < 1 / 2 then f
         else if 1 / 2 < d then f + 1
         else if even f then f else f + 1)"

text \<open>
  Rounding of \<open>x \<ge> 0\<close> in a binary format with \<open>p + 1\<close> significant bits whose
  smallest positive number is \<open>1 / 2 ^ E\<close>, with no bound above. In units of that smallest
  number, \<open>x\<close> is \<open>s\<close>; the numbers of the format near \<open>s\<close> are the multiples of
  \<open>2 ^ k\<close>, where \<open>k\<close> is the number of bits of \<open>s\<close> beyond the \<open>p + 1\<close> leading ones
  (none for a subnormal number).
\<close>

definition nearest_in :: "nat \<Rightarrow> nat \<Rightarrow> rat \<Rightarrow> rat" where
  "nearest_in p E x =
     (let s = x * 2 ^ E; k = ilog2 \<lfloor>s\<rfloor> - p
      in of_int (round_even (s / 2 ^ k)) * 2 ^ k / 2 ^ E)"

text \<open>
  The number value of a real \<open>x\<close> (rounding to nearest, ties to even; this is also
  how the parsing functions below round the decimal they read): a double has 53
  significant bits, the smallest positive one is \<open>1 / 2 ^ 1074\<close>, and what rounds to
  \<open>2 ^ 1024\<close> or more is infinite.
\<close>

definition round_double :: "rat \<Rightarrow> jsnum" where
  "round_double x =
     (let y = nearest_in 52 1074 \<bar>x\<bar>
      in if 2 ^ 1024 \<le> y then (if x < 0 then NegInf else PosInf)
         else Fin (if x < 0 then - y else y))"

text \<open>
  The number of a length. A string has at most \<open>2 ^ 53 - 1\<close> code units, and every
  integer up to \<open>2 ^ 53\<close> is a double.
\<close>

definition num :: "nat \<Rightarrow> jsnum" where
  "num n = Fin (of_nat n)"

text \<open>\<open>a <= b\<close>: false as soon as one side is \<open>NaN\<close>.\<close>

fun js_le :: "jsnum \<Rightarrow> jsnum \<Rightarrow> bool" where
  "js_le NaN b = False"
| "js_le a NaN = False"
| "js_le NegInf b = True"
| "js_le a PosInf = True"
| "js_le (Fin x) (Fin y) = (x \<le> y)"
| "js_le a b = False"

definition js_ge :: "jsnum \<Rightarrow> jsnum \<Rightarrow> bool" where
  "js_ge a b = js_le b a"

fun isNaN :: "jsnum \<Rightarrow> bool" where
  "isNaN NaN = True"
| "isNaN a = False"

fun js_neg :: "jsnum \<Rightarrow> jsnum" where
  "js_neg NaN = NaN"
| "js_neg NegInf = PosInf"
| "js_neg PosInf = NegInf"
| "js_neg (Fin x) = Fin (- x)"

text \<open>\<open>a + b\<close>, \<open>a - b\<close> and \<open>a * b\<close>: the exact result, rounded.\<close>

fun js_add :: "jsnum \<Rightarrow> jsnum \<Rightarrow> jsnum" where
  "js_add NaN b = NaN"
| "js_add a NaN = NaN"
| "js_add (Fin x) (Fin y) = round_double (x + y)"
| "js_add PosInf NegInf = NaN"
| "js_add NegInf PosInf = NaN"
| "js_add PosInf b = PosInf"
| "js_add a PosInf = PosInf"
| "js_add NegInf b = NegInf"
| "js_add a NegInf = NegInf"

definition js_sub :: "jsnum \<Rightarrow> jsnum \<Rightarrow> jsnum" where
  "js_sub a b = js_add a (js_neg b)"

fun js_mul :: "jsnum \<Rightarrow> jsnum \<Rightarrow> jsnum" where
  "js_mul NaN b = NaN"
| "js_mul a NaN = NaN"
| "js_mul (Fin x) (Fin y) = round_double (x * y)"
| "js_mul (Fin x) PosInf = (if x = 0 then NaN else if 0 < x then PosInf else NegInf)"
| "js_mul (Fin x) NegInf = (if x = 0 then NaN else if 0 < x then NegInf else PosInf)"
| "js_mul PosInf (Fin y) = (if y = 0 then NaN else if 0 < y then PosInf else NegInf)"
| "js_mul NegInf (Fin y) = (if y = 0 then NaN else if 0 < y then NegInf else PosInf)"
| "js_mul PosInf PosInf = PosInf"
| "js_mul NegInf NegInf = PosInf"
| "js_mul PosInf NegInf = NegInf"
| "js_mul NegInf PosInf = NegInf"

text \<open>\<open>Math.floor\<close> (the floor of a double is a double) and \<open>Math.min\<close>\<close>

fun Math_floor :: "jsnum \<Rightarrow> jsnum" where
  "Math_floor (Fin x) = Fin (of_int \<lfloor>x\<rfloor>)"
| "Math_floor a = a"

fun Math_min :: "jsnum \<Rightarrow> jsnum \<Rightarrow> jsnum" where
  "Math_min NaN b = NaN"
| "Math_min a NaN = NaN"
| "Math_min a b = (if js_le a b then a else b)"

text \<open>
  An index argument of \<open>substring\<close>: the number is truncated to an integer
  (\<open>NaN\<close> counts as 0) and clamped to \<open>0 .. len\<close>.
\<close>

fun to_index :: "nat \<Rightarrow> jsnum \<Rightarrow> nat" where
  "to_index len NaN = 0"
| "to_index len NegInf = 0"
| "to_index len PosInf = len"
| "to_index len (Fin x) = (if x \<le> 0 then 0 else min len (nat \<lfloor>x\<rfloor>))"

text \<open>
  \<open>String.prototype.repeat\<close>: the count is truncated to an integer (\<open>NaN\<close> counts
  as 0); a negative or infinite count is a \<open>RangeError\<close>. (The limit an engine puts
  on the length of the result is not modelled.)
\<close>

fun String_repeat :: "string \<Rightarrow> jsnum \<Rightarrow> thrown + string" where
  "String_repeat s NaN = Inr []"
| "String_repeat s (Fin x) =
     (if x \<le> - 1 then Inl (RangeError ''Invalid count value'')
      else Inr (concat (replicate (nat \<lfloor>x\<rfloor>) s)))"
| "String_repeat s a = Inl (RangeError ''Invalid count value'')"

text \<open>\<open>repeat(char, count)\<close> of the string utilities\<close>

definition repeat :: "string \<Rightarrow> jsnum \<Rightarrow> thrown + string" where
  "repeat ch count = (if js_le count (num 0) then Inr [] else String_repeat ch count)"

section \<open>Parsing numbers\<close>

text \<open>The value of a decimal digit: its position among the ten digits.\<close>

definition digit_val :: "char \<Rightarrow> nat" where
  "digit_val c = length (takeWhile (\<lambda>d. d \<noteq> c) ''0123456789'')"

definition digits_val :: "string \<Rightarrow> int" where
  "digits_val ds = foldl (\<lambda>a c. 10 * a + int (digit_val c)) 0 ds"

text \<open>An optional sign: the factor it stands for, and the rest of the string.\<close>

definition read_sign :: "string \<Rightarrow> int \<times> string" where
  "read_sign s =
     (case s of
        [] \<Rightarrow> (1, s)
      | c # cs \<Rightarrow> if c = CHR ''-'' then (- 1, cs) else if c = CHR ''+'' then (1, cs) else (1, s))"

text \<open>
  \<open>parseInt(s, 10)\<close>: leading white space, an optional sign, then the longest run of
  decimal digits; \<open>NaN\<close> when there is no digit, else the number value of the integer
  the digits denote.
\<close>

definition parseInt :: "string \<Rightarrow> jsnum" where
  "parseInt s =
     (let (sign, t) = read_sign (dropWhile is_space s);
          ds = takeWhile is_digit t
      in if ds = [] then NaN else round_double (of_int (sign * digits_val ds)))"

text \<open>
  The exponent part of a decimal literal, read only when a digit follows the \<open>e\<close>
  and its optional sign.
\<close>

definition read_exponent :: "string \<Rightarrow> int" where
  "read_exponent s =
     (case s of
        [] \<Rightarrow> 0
      | c # cs \<Rightarrow>
          if c = CHR ''e'' \<or> c = CHR ''E'' then
            (let (sign, t) = read_sign cs; ds = takeWhile is_digit t
             in if ds = [] then 0 else sign * digits_val ds)
          else 0)"

definition scale10 :: "rat \<Rightarrow> int \<Rightarrow> rat" where
  "scale10 x e = (if 0 \<le> e then x * 10 ^ nat e else x / 10 ^ nat (- e))"

text \<open>
  \<open>parseFloat(s)\<close>: leading white space, an optional sign, then \<open>Infinity\<close> or the
  longest prefix that is a decimal literal (digits, an optional fraction, an optional
  exponent); \<open>NaN\<close> when there is none, else the number value of the decimal the
  literal denotes.
\<close>

definition parseFloat :: "string \<Rightarrow> jsnum" where
  "parseFloat s =
     (let (sign, t) = read_sign (dropWhile is_space s)
      in if take 8 t = ''Infinity'' then (if sign < 0 then NegInf else PosInf)
         else
           (let ip = takeWhile is_digit t;
                r1 = dropWhile is_digit t;
                has_dot = (r1 \<noteq> [] \<and> hd r1 = CHR ''.'');
                fp = (if has_dot then takeWhile is_digit (tl r1) else []);
                r2 = (if has_dot then dropWhile is_digit (tl r1) else r1)
            in if ip = [] \<and> fp = [] then NaN
               else round_double
                      (of_int sign
                       * scale10 (of_int (digits_val ip) + of_int (digits_val fp) / 10 ^ length fp)
                           (read_exponent r2))))"

section \<open>Masking strategies\<close>

text \<open>\<open>s.split(c)\<close>: the pieces between the occurrences of \<open>c\<close>; never empty.\<close>

fun split :: "char \<Rightarrow> string \<Rightarrow> string list" where
  "split c [] = [[]]"
| "split c (x # xs) =
     (if x = c then [] # split c xs
      else (case split c xs of [] \<Rightarrow> [[x]] | p # ps \<Rightarrow> (x # p) # ps))"

text \<open>\<open>parts[i]\<close>, \<open>undefined\<close> (here \<open>None\<close>) beyond the end.\<close>

fun item :: "'a list \<Rightarrow> nat \<Rightarrow> 'a option" where
  "item [] i = None"
| "item (x # xs) 0 = Some x"
| "item (x # xs) (Suc i) = item xs i"

text \<open>The string a parsing function makes of its argument: \<open>undefined\<close> reads as its name.\<close>

fun to_string :: "string option \<Rightarrow> string" where
  "to_string None = ''undefined''"
| "to_string (Some s) = s"

text \<open>\<open>piece || '0'\<close>: the default replaces \<open>undefined\<close> and the empty string.\<close>

fun or_zero :: "string option \<Rightarrow> string" where
  "or_zero None = ''0''"
| "or_zero (Some s) = (if s = [] then ''0'' else s)"

definition strategies_full :: "string \<Rightarrow> string \<Rightarrow> string \<Rightarrow> thrown + string" where
  "strategies_full v strategy ch = repeat ch (num (length v))"

definition strategies_middle :: "string \<Rightarrow> string \<Rightarrow> string \<Rightarrow> thrown + string" where
  "strategies_middle v strategy ch =
     (if length v \<le> 2 then repeat ch (num (length v))
      else (case repeat ch (num (length v - 2)) of
              Inl e \<Rightarrow> Inl e
            | Inr middle \<Rightarrow> Inr ([hd v] @ middle @ [last v])))"

definition strategies_first :: "string \<Rightarrow> string \<Rightarrow> string \<Rightarrow> thrown + string" where
  "strategies_first v strategy ch =
     (let n = parseInt (to_string (item (split CHR '':'' strategy) 1))
      in if js_le n (num 0) then repeat ch (num (length v))
         else if js_ge n (num (length v)) then Inr v
         else (let visible = substring v 0 (to_index (length v) n)
               in case repeat ch (js_sub (num (length v)) n) of
                    Inl e \<Rightarrow> Inl e
                  | Inr masked \<Rightarrow> Inr (visible @ masked)))"

definition strategies_last :: "string \<Rightarrow> string \<Rightarrow> string \<Rightarrow> thrown + string" where
  "strategies_last v strategy ch =
     (let n = parseInt (to_string (item (split CHR '':'' strategy) 1))
      in if js_le n (num 0) then repeat ch (num (length v))
         else if js_ge n (num (length v)) then Inr v
         else (case repeat ch (js_sub (num (length v)) n) of
                 Inl e \<Rightarrow> Inl e
               | Inr masked \<Rightarrow>
                   Inr (masked @ substring v (to_index (length v) (js_sub (num (length v)) n))
                                   (length v))))"

definition strategies_partial :: "string \<Rightarrow> string \<Rightarrow> string \<Rightarrow> thrown + string" where
  "strategies_partial v strategy ch =
     (let ratio = parseFloat (to_string (item (split CHR '':'' strategy) 1))
      in if js_le ratio (num 0) then repeat ch (num (length v))
         else if js_ge ratio (num 1) then Inr v
         else (let visible = Math_floor (js_mul (num (length v)) ratio)
               in case repeat ch (js_sub (num (length v)) visible) of
                    Inl e \<Rightarrow> Inl e
                  | Inr masked \<Rightarrow> Inr (substring v 0 (to_index (length v) visible) @ masked)))"

text \<open>
  The table \<open>strategies\<close> is an object literal with five own properties;
  \<open>strategies[strategyName]\<close> is a property access on it, so it also finds the
  properties that every object inherits.
\<close>

definition strategies ::
  "string \<Rightarrow> (string \<Rightarrow> string \<Rightarrow> string \<Rightarrow> thrown + string) property option" where
  "strategies name =
     get_property
       [(''full'', strategies_full), (''middle'', strategies_middle),
        (''first'', strategies_first), (''last'', strategies_last),
        (''partial'', strategies_partial)]
       name"

text \<open>\<open>strategy.split(':')[0] || strategy\<close>\<close>

definition strategyName :: "string \<Rightarrow> string" where
  "strategyName strategy =
     (case item (split CHR '':'' strategy) 0 of
        None \<Rightarrow> strategy
      | Some p \<Rightarrow> if p = [] then strategy else p)"

text \<open>Every property the access can find is truthy, so only \<open>undefined\<close> throws.\<close>

definition applyStrategy :: "string \<Rightarrow> string \<Rightarrow> string \<Rightarrow> thrown + returned" where
  "applyStrategy v strategy ch =
     (if length v = 0 then Inr (Str v)
      else (case strategies (strategyName strategy) of
              None \<Rightarrow> Inl (InvalidStrategyError strategy)
            | Some (Own handler) \<Rightarrow>
                (case handler v strategy ch of Inl e \<Rightarrow> Inl e | Inr r \<Rightarrow> Inr (Str r))
            | Some (Inherited member) \<Rightarrow> call_inherited member v))"

text \<open>\<open>strategy.startsWith(prefix)\<close>\<close>

definition startsWith :: "string \<Rightarrow> string \<Rightarrow> bool" where
  "startsWith s p = (take (length p) s = p)"

definition isValidStrategy :: "string \<Rightarrow> bool" where
  "isValidStrategy strategy =
     (if strategy = ''full'' \<or> strategy = ''middle'' then True
      else if startsWith strategy ''first:'' then
        (let n = parseInt (or_zero (item (split CHR '':'' strategy) 1))
         in \<not> isNaN n \<and> js_ge n (num 0))
      else if startsWith strategy ''last:'' then
        (let n = parseInt (or_zero (item (split CHR '':'' strategy) 1))
         in \<not> isNaN n \<and> js_ge n (num 0))
      else if startsWith strategy ''partial:'' then
        (let ratio = parseFloat (or_zero (item (split CHR '':'' strategy) 1))
         in \<not> isNaN ratio \<and> js_ge ratio (num 0) \<and> js_le ratio (num 1))
      else False)"

definition getStrategies :: "string list" where
  "getStrategies = [''full'', ''middle'', ''first:0'', ''last:0'', ''partial:0'']"

definition getVisibleCount :: "string \<Rightarrow> string \<Rightarrow> jsnum" where
  "getVisibleCount v strategy =
     (if length v = 0 then num 0
      else if strategy = ''full'' then num 0
      else if strategy = ''middle'' then Math_min (num 2) (num (length v))
      else if strategy = ''first:0'' then num 0
      else if strategy = ''last:0'' then num 0
      else if strategy = ''partial:0'' then num 0
      else if startsWith strategy ''first:'' then
        (let n = parseInt (or_zero (item (split CHR '':'' strategy) 1))
         in Math_min n (num (length v)))
      else if startsWith strategy ''last:'' then
        (let n = parseInt (or_zero (item (split CHR '':'' strategy) 1))
         in Math_min n (num (length v)))
      else if startsWith strategy ''partial:'' then
        (let ratio = parseFloat (or_zero (item (split CHR '':'' strategy) 1))
         in Math_floor (js_mul (num (length v)) ratio))
      else num 0)"

definition getMaskedCount :: "string \<Rightarrow> string \<Rightarrow> jsnum" where
  "getMaskedCount v strategy =
     (if length v = 0 then num 0
      else js_sub (num (length v)) (getVisibleCount v strategy))"

section \<open>Decimal numerals\<close>

text \<open>
  The strategy string \<open>'first:' + N\<close> of an integer \<open>N\<close> ends in the decimal numeral
  of \<open>N\<close>: a minus sign for a negative number, then the digits without leading zeros.
\<close>

definition digit_char :: "nat \<Rightarrow> char" where
  "digit_char d = ''0123456789'' ! d"

fun show_nat :: "nat \<Rightarrow> string" where
  "show_nat n = (if n < 10 then [digit_char n] else show_nat (n div 10) @ [digit_char (n mod 10)])"

declare show_nat.simps [simp del]

definition show_int :: "int \<Rightarrow> string" where
  "show_int i = (if i < 0 then CHR ''-'' # show_nat (nat (- i)) else show_nat (nat i))"

section \<open>Values and options\<close>

text \<open>
  A JavaScript value: a primitive, or a reference to an object or an array of the heap
  (an address).
\<close>

datatype val =
    VUndefined
  | VNull
  | VBool bool
  | VNum jsnum
  | VStr string
  | VBigInt int
  | VSymbol string
  | VRef nat

text \<open>
  \<open>ObjectMaskOptions\<close>, which extends \<open>MaskOptions\<close>: every property is optional.
  The field mapping \<open>fields\<close> lists its entries in the order of \<open>Object.keys\<close>.
\<close>

record options =
  strategy :: "string option"
  format :: "string option"
  char :: "string option"
  fields_opt :: "(string \<times> string) list option"
  deep :: "bool option"
  maskArrays :: "bool option"

type_synonym masker = "string \<Rightarrow> options option \<Rightarrow> thrown + string"

section \<open>Maps with insertion order\<close>

text \<open>
  A JavaScript \<open>Map\<close> keeps its entries in insertion order: \<open>set\<close> replaces the value
  of a key that is present, in place, and appends a new key at the end.
\<close>

definition map_has :: "('k \<times> 'v) list \<Rightarrow> 'k \<Rightarrow> bool" where
  "map_has m k = (k \<in> set (map fst m))"

definition map_get :: "('k \<times> 'v) list \<Rightarrow> 'k \<Rightarrow> 'v option" where
  "map_get m k = map_of m k"

fun map_set :: "('k \<times> 'v) list \<Rightarrow> 'k \<Rightarrow> 'v \<Rightarrow> ('k \<times> 'v) list" where
  "map_set [] k v = [(k, v)]"
| "map_set ((k', v') # m) k v = (if k' = k then (k, v) # m else (k', v') # map_set m k v)"

definition map_delete :: "('k \<times> 'v) list \<Rightarrow> 'k \<Rightarrow> ('k \<times> 'v) list" where
  "map_delete m k = filter (\<lambda>(k', v'). k' \<noteq> k) m"

section \<open>Plugins\<close>

text \<open>
  What a promise returned by \<open>onInit\<close> does: it fulfils or rejects at some tick of the
  event loop, or it stays pending for ever.
\<close>

datatype promise = Fulfils nat | Rejects nat thrown | Pending

text \<open>What a call of \<open>onInit\<close> does: it returns, throws, or returns a promise.\<close>

datatype init_result = Returns | Throws thrown | ReturnsPromise promise

text \<open>
  The \<open>install\<close> procedure of a plugin is modelled by the calls it makes on the kernel it
  is given: it registers maskers (the second argument is \<open>None\<close> when it is no function)
  and it may throw.
\<close>

datatype install_op = RegisterMasker string "masker option" | Throw thrown

text \<open>
  \<open>MaskPlugin\<close>. A missing \<open>install\<close> is \<open>None\<close>. The hooks are given by their
  behaviour: \<open>onDestroy\<close> by what it throws, if anything, and \<open>onError\<close> by what it
  throws, if anything, on the error it receives.
\<close>

record 'ctx plugin =
  name :: string
  version :: string
  dependencies :: "string list option"
  install :: "install_op list option"
  onInit :: "('ctx \<Rightarrow> init_result) option"
  onDestroy :: "thrown option option"
  onError :: "(thrown \<Rightarrow> thrown option) option"

text \<open>The hook invocations an operation of the kernel makes, in order.\<close>

datatype hook_call = OnInit string | OnDestroy string | OnError string thrown

section \<open>The kernel\<close>

text \<open>
  The state of a \<open>MaskKernel\<close>. \<open>initializationPromise\<close> tells whether an initialization
  is in flight (the field is not \<open>null\<close>).
\<close>

record 'ctx kernel =
  plugins :: "(string \<times> 'ctx plugin) list"
  maskers :: "(string \<times> masker) list"
  "context" :: 'ctx
  initialized :: bool
  initializationPromise :: bool

definition new_kernel :: "'ctx \<Rightarrow> 'ctx kernel" where
  "new_kernel initialContext =
     \<lparr>plugins = [], maskers = [], context = initialContext, initialized = False,
      initializationPromise = False\<rparr>"

definition registerMasker ::
  "'ctx kernel \<Rightarrow> string \<Rightarrow> masker option \<Rightarrow> (thrown + unit) \<times> 'ctx kernel" where
  "registerMasker K type m =
     (if type = [] then (Inl (PluginError ''Masker type cannot be empty'' ''kernel'' []), K)
      else (case m of
              None \<Rightarrow> (Inl (PluginError ''Masker must be a function'' ''kernel'' []), K)
            | Some f \<Rightarrow> (Inr (), K\<lparr>maskers := map_set (maskers K) type f\<rparr>)))"

text \<open>\<open>plugin.install(this)\<close>: the calls run in order, up to the first one that throws.\<close>

fun run_install :: "install_op list \<Rightarrow> 'ctx kernel \<Rightarrow> (thrown + unit) \<times> 'ctx kernel" where
  "run_install [] K = (Inr (), K)"
| "run_install (Throw e # ops) K = (Inl e, K)"
| "run_install (RegisterMasker type m # ops) K =
     (case registerMasker K type m of
        (Inl e, K') \<Rightarrow> (Inl e, K')
      | (Inr u, K') \<Rightarrow> run_install ops K')"

text \<open>The first declared dependency that is not registered, if any.\<close>

definition missing_dependency :: "'ctx kernel \<Rightarrow> 'ctx plugin \<Rightarrow> string option" where
  "missing_dependency K p =
     (case dependencies p of
        None \<Rightarrow> None
      | Some deps \<Rightarrow> find (\<lambda>dep. \<not> map_has (plugins K) dep) deps)"

definition quoted :: "string \<Rightarrow> string" where
  "quoted s = [CHR 0x22] @ s @ [CHR 0x22]"

definition registerPlugin ::
  "'ctx kernel \<Rightarrow> 'ctx plugin \<Rightarrow> (thrown + unit) \<times> 'ctx kernel" where
  "registerPlugin K p =
     (if name p = [] then (Inl (PluginRegistrationError ''Plugin must have a name'' ''unknown''), K)
      else if version p = [] then
        (Inl (PluginRegistrationError ''Plugin must have a version'' (name p)), K)
      else (case install p of
          None \<Rightarrow>
            (Inl (PluginRegistrationError ''Plugin must have an install function'' (name p)), K)
        | Some script \<Rightarrow>
            if map_has (plugins K) (name p) then
              (Inl (PluginRegistrationError
                      (''Plugin '' @ quoted (name p) @ '' is already registered'') (name p)), K)
            else (case missing_dependency K p of
                Some dep \<Rightarrow>
                  (Inl (PluginError (''Missing dependency: '' @ dep) (name p)
                          [(''dependency'', dep)]), K)
              | None \<Rightarrow>
                  (case run_install script (K\<lparr>plugins := map_set (plugins K) (name p) p\<rparr>) of
                     (Inr u, K') \<Rightarrow> (Inr (), K'\<lparr>initialized := False\<rparr>)
                   | (Inl error, K') \<Rightarrow>
                       (Inl (if instanceof_Error error
                             then PluginInitError
                                    (''Failed to install plugin '' @ quoted (name p) @ '': ''
                                     @ message error) (name p) (Some error)
                             else PluginInitError
                                    (''Failed to install plugin '' @ quoted (name p)
                                     @ '': Unknown error'') (name p) None),
                        K'\<lparr>plugins := map_delete (plugins K') (name p)\<rparr>)))))"

text \<open>
  A call of \<open>plugin.onError(error)\<close>, made when the hook is present and the error is an
  \<open>Error\<close>: the call made, if any, and what the hook throws, if anything.
\<close>

definition report_error :: "'ctx plugin \<Rightarrow> thrown \<Rightarrow> hook_call list \<times> thrown option" where
  "report_error p error =
     (case onError p of
        None \<Rightarrow> ([], None)
      | Some hook \<Rightarrow>
          if instanceof_Error error then ([OnError (name p) error], hook error) else ([], None))"

definition unregisterPlugin ::
  "'ctx kernel \<Rightarrow> string \<Rightarrow> (thrown + bool) \<times> 'ctx kernel \<times> hook_call list" where
  "unregisterPlugin K n =
     (case map_get (plugins K) n of
        None \<Rightarrow> (Inr False, K, [])
      | Some p \<Rightarrow>
          (let removed = K\<lparr>plugins := map_delete (plugins K) n, initialized := False\<rparr>
           in case onDestroy p of
                None \<Rightarrow> (Inr True, removed, [])
              | Some None \<Rightarrow> (Inr True, removed, [OnDestroy n])
              | Some (Some error) \<Rightarrow>
                  (case report_error p error of
                     (calls, None) \<Rightarrow> (Inr True, removed, OnDestroy n # calls)
                   | (calls, Some error') \<Rightarrow> (Inl error', K, OnDestroy n # calls))))"

definition getPlugin :: "'ctx kernel \<Rightarrow> string \<Rightarrow> 'ctx plugin option" where
  "getPlugin K n = map_get (plugins K) n"

definition listPlugins :: "'ctx kernel \<Rightarrow> string list" where
  "listPlugins K = map fst (plugins K)"

definition getMasker :: "'ctx kernel \<Rightarrow> string \<Rightarrow> masker option" where
  "getMasker K type = map_get (maskers K) type"

definition getPluginCount :: "'ctx kernel \<Rightarrow> nat" where
  "getPluginCount K = length (plugins K)"

definition getMaskerCount :: "'ctx kernel \<Rightarrow> nat" where
  "getMaskerCount K = length (maskers K)"

definition hasPlugin :: "'ctx kernel \<Rightarrow> string \<Rightarrow> bool" where
  "hasPlugin K n = map_has (plugins K) n"

definition hasMasker :: "'ctx kernel \<Rightarrow> string \<Rightarrow> bool" where
  "hasMasker K type = map_has (maskers K) type"

definition isInitialized :: "'ctx kernel \<Rightarrow> bool" where
  "isInitialized K = initialized K"

text \<open>
  \<open>executeMask(type, value, options)\<close>. The type is what the caller has found for it: a
  string, or an inherited property when the caller read it from a field mapping; the
  map of the maskers has string keys only, so it holds no masker for such a property.
\<close>

definition executeMask ::
  "'ctx kernel \<Rightarrow> string property \<Rightarrow> val \<Rightarrow> options option \<Rightarrow> thrown + string" where
  "executeMask K type v opts =
     (case v of
        VStr s \<Rightarrow>
          (case type of
             Own t \<Rightarrow>
               (case map_get (maskers K) t of
                  None \<Rightarrow> Inl (MaskerNotFoundError type)
                | Some m \<Rightarrow> m s opts)
           | Inherited member \<Rightarrow> Inl (MaskerNotFoundError type))
      | _ \<Rightarrow> Inl (InvalidValueError ''Value must be a string''))"

section \<open>Initialization\<close>

text \<open>How an asynchronous operation ends.\<close>

datatype outcome = Resolved | Rejected thrown | NeverSettles

text \<open>
  The rejection that comes first among the promises: the earliest tick, and the first
  promise of the list among those of one tick.
\<close>

fun first_rejection :: "promise list \<Rightarrow> (nat \<times> thrown) option" where
  "first_rejection [] = None"
| "first_rejection (Rejects t e # ps) =
     (case first_rejection ps of
        None \<Rightarrow> Some (t, e)
      | Some (t', e') \<Rightarrow> if t' < t then Some (t', e') else Some (t, e))"
| "first_rejection (p # ps) = first_rejection ps"

text \<open>
  \<open>await Promise.all(promises)\<close>: it rejects with the first rejection, stays pending
  when no promise rejects and one stays pending, and resolves otherwise.
\<close>

definition Promise_all :: "promise list \<Rightarrow> outcome" where
  "Promise_all ps =
     (case first_rejection ps of
        Some (t, e) \<Rightarrow> Rejected e
      | None \<Rightarrow> if Pending \<in> set ps then NeverSettles else Resolved)"

text \<open>
  The loop of \<open>doInitialize\<close> over the plugins that remain, with the promises collected
  so far: the promises at the end of the loop, or what the loop throws, and the hooks
  called.
\<close>

fun start_plugins ::
  "'ctx \<Rightarrow> (string \<times> 'ctx plugin) list \<Rightarrow> promise list \<Rightarrow> (thrown + promise list) \<times> hook_call list"
where
  "start_plugins ctx [] initPromises = (Inr initPromises, [])"
| "start_plugins ctx ((n, p) # rest) initPromises =
     (case onInit p of
        None \<Rightarrow> start_plugins ctx rest initPromises
      | Some hook \<Rightarrow>
          (case hook ctx of
             Returns \<Rightarrow>
               (case start_plugins ctx rest initPromises of
                  (r, calls) \<Rightarrow> (r, OnInit (name p) # calls))
           | ReturnsPromise result \<Rightarrow>
               (case start_plugins ctx rest (initPromises @ [result]) of
                  (r, calls) \<Rightarrow> (r, OnInit (name p) # calls))
           | Throws error \<Rightarrow>
               (case report_error p error of
                  (calls, None) \<Rightarrow> (Inl error, OnInit (name p) # calls)
                | (calls, Some error') \<Rightarrow> (Inl error', OnInit (name p) # calls))))"

definition doInitialize :: "'ctx kernel \<Rightarrow> outcome \<times> hook_call list" where
  "doInitialize K =
     (case start_plugins (context K) (plugins K) [] of
        (Inl error, calls) \<Rightarrow> (Rejected error, calls)
      | (Inr initPromises, calls) \<Rightarrow>
          (if 0 < length initPromises then Promise_all initPromises else Resolved, calls))"

text \<open>
  \<open>initialize()\<close>, seen from a caller that awaits it: how the returned promise ends, the
  state of the kernel then, and the hooks called.
\<close>

definition initialize :: "'ctx kernel \<Rightarrow> outcome \<times> 'ctx kernel \<times> hook_call list" where
  "initialize K =
     (if initializationPromise K then (NeverSettles, K, [])
      else if initialized K then (Resolved, K, [])
      else (case doInitialize K of
              (Resolved, calls) \<Rightarrow>
                (Resolved, K\<lparr>initialized := True, initializationPromise := False\<rparr>, calls)
            | (Rejected error, calls) \<Rightarrow>
                (Rejected error, K\<lparr>initializationPromise := False\<rparr>, calls)
            | (NeverSettles, calls) \<Rightarrow>
                (NeverSettles, K\<lparr>initializationPromise := True\<rparr>, calls)))"

section \<open>Heaps\<close>

text \<open>
  The objects and arrays a value refers to live in a heap. An address holds an object,
  given by its kind and by the list of its own enumerable string-keyed properties, as
  \<open>Object.entries\<close> returns them (the traversal sees no other property: the keys of
  an object are these); or an array, the list of its elements (a hole reads as
  \<open>undefined\<close>). The kind tells a plain object, whose prototype is
  \<open>Object.prototype\<close> (an object literal, the result of \<open>JSON.parse\<close>), from an
  instance of something else, named by its constructor (a \<open>Date\<close>, a \<open>Map\<close>, an
  instance of a class), and from a function. Properties are writable data properties.
  Two references are the same object when they are the same address, so that a heap can
  hold shared and cyclic structures.
\<close>

datatype kind = Plain | Instance string | Callable

datatype cell = Obj kind "(string \<times> val) list" | Arr "val list"

type_synonym heap = "nat \<Rightarrow> cell"

text \<open>A heap to start from: every address holds the empty plain object.\<close>

definition empty_heap :: heap where
  "empty_heap = (\<lambda>a. Obj Plain [])"

text \<open>
  What a traversal returns. The traversal never writes to an object of its input: it
  builds fresh objects and arrays, each referred to from one place only, and these are
  given by their contents. \<open>NewArr\<close> is a fresh array. \<open>NewObj\<close> is a fresh object
  that started as \<open>{}\<close>: its own properties, and its prototype when an assignment has
  replaced it (\<open>None\<close> stands for \<open>Object.prototype\<close>). \<open>Keep v\<close> is a value that
  is no fresh container: a primitive, or a reference to an object or array of the input.
\<close>

datatype rval = Keep val | NewObj "rval option" "(string \<times> rval) list" | NewArr "rval list"

text \<open>
  The result of a call that may throw and may recurse: \<open>None\<close> when the calls nest
  deeper than the bound given, else what is thrown or what is returned.
\<close>

type_synonym 'a result = "(thrown + 'a) option"

fun isPrimitive :: "val \<Rightarrow> bool" where
  "isPrimitive (VRef a) = False"
| "isPrimitive v = True"

text \<open>
  \<open>typeof value === 'object' && value !== null && !Array.isArray(value)\<close>: the type of
  a function is \<open>'function'\<close>.
\<close>

fun isObject :: "heap \<Rightarrow> val \<Rightarrow> bool" where
  "isObject h (VRef a) = (case h a of Obj k kvs \<Rightarrow> k \<noteq> Callable | Arr vs \<Rightarrow> False)"
| "isObject h v = False"

fun isArray :: "heap \<Rightarrow> val \<Rightarrow> bool" where
  "isArray h (VRef a) = (case h a of Obj k kvs \<Rightarrow> False | Arr vs \<Rightarrow> True)"
| "isArray h v = False"

section \<open>Field paths\<close>

definition endsWith :: "string \<Rightarrow> string \<Rightarrow> bool" where
  "endsWith s suffix =
     (length suffix \<le> length s \<and> drop (length s - length suffix) s = suffix)"

definition matchesPath :: "string \<Rightarrow> string \<Rightarrow> bool" where
  "matchesPath path pattern =
     (if endsWith pattern ''.*'' then
        (let prefix = take (length pattern - 2) pattern
         in startsWith path prefix
            \<and> (path = prefix \<or> item path (length prefix) = Some CHR ''.''))
      else path = pattern)"

text \<open>
  The field mapping is a plain object, and \<open>fields[path]\<close> a property access on it.
  Whether what it finds counts as true in a condition:
\<close>

fun truthy :: "string property \<Rightarrow> bool" where
  "truthy (Own s) = (s \<noteq> [])"
| "truthy (Inherited member) = True"

text \<open>
  The loop of \<open>findMaskerForField\<close> over the keys that remain (the keys are those of
  \<open>Object.keys(fields)\<close>, the own ones).
\<close>

fun find_pattern ::
  "string \<Rightarrow> (string \<times> string) list \<Rightarrow> string list \<Rightarrow> string property option" where
  "find_pattern path fs [] = None"
| "find_pattern path fs (fieldPath # keys) =
     (if matchesPath path fieldPath then get_property fs fieldPath
      else find_pattern path fs keys)"

text \<open>
  The result is \<open>None\<close> for \<open>undefined\<close>. The exact match returns what it finds when
  that is truthy: a non-empty masker type, or a property that the mapping inherits,
  which is no string. A masker type that the loop finds may be empty.
\<close>

definition findMaskerForField ::
  "string \<Rightarrow> (string \<times> string) list option \<Rightarrow> string property option" where
  "findMaskerForField path fs_opt =
     (case fs_opt of
        None \<Rightarrow> None
      | Some fs \<Rightarrow>
          (case get_property fs path of
             Some t \<Rightarrow> if truthy t then Some t else find_pattern path fs (map fst fs)
           | None \<Rightarrow> find_pattern path fs (map fst fs)))"

text \<open>\<open>context.currentPath ? `${context.currentPath}.${key}` : key\<close>\<close>

definition child_path :: "string option \<Rightarrow> string \<Rightarrow> string" where
  "child_path currentPath key =
     (case currentPath of
        None \<Rightarrow> key
      | Some p \<Rightarrow> if p = [] then key else p @ ''.'' @ key)"

section \<open>Traversal\<close>

text \<open>
  The set \<open>context.visited\<close> is created by the first call of \<open>traverseObject\<close> and
  shared by every context made from that one, so one set is threaded through the
  traversal: \<open>None\<close> while it is \<open>undefined\<close>. This is \<open>context.visited?.has(x)\<close>:
\<close>

fun visited_has :: "nat set option \<Rightarrow> nat \<Rightarrow> bool" where
  "visited_has None a = False"
| "visited_has (Some s) a = (a \<in> s)"

text \<open>
  The functions call each other through \<open>traverse\<close>; each takes that recursive call as
  its first argument \<open>rec\<close>, applied to the current path, the visited set and a value.
  The loop of \<open>traverseArray\<close> over the elements that remain:
\<close>

fun traverse_items ::
  "(string option \<Rightarrow> nat set option \<Rightarrow> val \<Rightarrow> (rval \<times> nat set option) result)
    \<Rightarrow> string option \<Rightarrow> nat set option \<Rightarrow> val list \<Rightarrow> (rval list \<times> nat set option) result"
where
  "traverse_items rec path visited [] = Some (Inr ([], visited))"
| "traverse_items rec path visited (v # vs) =
     (case rec path visited v of
        None \<Rightarrow> None
      | Some (Inl e) \<Rightarrow> Some (Inl e)
      | Some (Inr (r, visited')) \<Rightarrow>
          (case traverse_items rec path visited' vs of
             None \<Rightarrow> None
           | Some (Inl e) \<Rightarrow> Some (Inl e)
           | Some (Inr (rs, visited'')) \<Rightarrow> Some (Inr (r # rs, visited''))))"

definition traverseArray ::
  "(string option \<Rightarrow> nat set option \<Rightarrow> val \<Rightarrow> (rval \<times> nat set option) result)
    \<Rightarrow> options \<Rightarrow> string option \<Rightarrow> nat set option \<Rightarrow> nat \<Rightarrow> val list
    \<Rightarrow> (rval \<times> nat set option) result"
where
  "traverseArray rec opts path visited a arr =
     (if maskArrays opts = Some False then Some (Inr (Keep (VRef a), visited))
      else if visited_has visited a then Some (Inr (Keep (VRef a), visited))
      else (case traverse_items rec path visited arr of
              None \<Rightarrow> None
            | Some (Inl e) \<Rightarrow> Some (Inl e)
            | Some (Inr (rs, visited')) \<Rightarrow> Some (Inr (NewArr rs, visited'))))"

text \<open>
  One turn of the loop of \<open>traverseObject\<close>: the entry of the result. \<open>nested\<close> is
  the recursive call that the two middle branches of the source make, \<open>unmasked\<close> what
  happens when no masker type is found (or an empty one, which counts as false).
\<close>

definition traverse_entry ::
  "(string option \<Rightarrow> nat set option \<Rightarrow> val \<Rightarrow> (rval \<times> nat set option) result)
    \<Rightarrow> 'ctx kernel \<Rightarrow> heap \<Rightarrow> options \<Rightarrow> string option \<Rightarrow> nat set option \<Rightarrow> string \<times> val
    \<Rightarrow> ((string \<times> rval) \<times> nat set option) result"
where
  "traverse_entry rec K h opts currentPath visited kv =
     (let key = fst kv; v = snd kv;
          path = child_path currentPath key;
          nested =
            (case rec (Some path) visited v of
               None \<Rightarrow> None
             | Some (Inl e) \<Rightarrow> Some (Inl e)
             | Some (Inr (r, visited')) \<Rightarrow> Some (Inr ((key, r), visited')));
          unmasked =
            (if deep opts \<noteq> Some False \<and> isObject h v then nested
             else if isArray h v \<and> maskArrays opts \<noteq> Some False then nested
             else Some (Inr ((key, Keep v), visited)))
      in case findMaskerForField path (fields_opt opts) of
           None \<Rightarrow> unmasked
         | Some maskerType \<Rightarrow>
             if \<not> truthy maskerType then unmasked
             else (case v of
                     VStr s \<Rightarrow>
                       (case executeMask K maskerType v (Some opts) of
                          Inl e \<Rightarrow> Some (Inl e)
                        | Inr masked \<Rightarrow> Some (Inr ((key, Keep (VStr masked)), visited)))
                   | _ \<Rightarrow> Some (Inr ((key, Keep v), visited))))"

text \<open>The loop of \<open>traverseObject\<close> over the entries that remain.\<close>

fun traverse_entries ::
  "(string option \<Rightarrow> nat set option \<Rightarrow> val \<Rightarrow> (rval \<times> nat set option) result)
    \<Rightarrow> 'ctx kernel \<Rightarrow> heap \<Rightarrow> options \<Rightarrow> string option \<Rightarrow> nat set option \<Rightarrow> (string \<times> val) list
    \<Rightarrow> ((string \<times> rval) list \<times> nat set option) result"
where
  "traverse_entries rec K h opts path visited [] = Some (Inr ([], visited))"
| "traverse_entries rec K h opts path visited (kv # kvs) =
     (case traverse_entry rec K h opts path visited kv of
        None \<Rightarrow> None
      | Some (Inl e) \<Rightarrow> Some (Inl e)
      | Some (Inr (kr, visited')) \<Rightarrow>
          (case traverse_entries rec K h opts path visited' kvs of
             None \<Rightarrow> None
           | Some (Inl e) \<Rightarrow> Some (Inl e)
           | Some (Inr (krs, visited'')) \<Rightarrow> Some (Inr (kr # krs, visited''))))"

text \<open>
  The object that the assignments \<open>result[key] = x\<close> of the loop make of \<open>{}\<close>. Each
  adds an own property, but for the key \<open>__proto__\<close>: this is a setter that \<open>{}\<close>
  inherits, which replaces the prototype of \<open>result\<close> by \<open>x\<close> when \<open>x\<close> is an object
  or \<open>null\<close> and does nothing otherwise; no own property is made. (The keys of one
  object differ, so at most one assignment is of this kind.)
\<close>

fun is_object_or_null :: "rval \<Rightarrow> bool" where
  "is_object_or_null (Keep VNull) = True"
| "is_object_or_null (Keep (VRef a)) = True"
| "is_object_or_null (Keep v) = False"
| "is_object_or_null r = True"

definition assigned_proto :: "(string \<times> rval) list \<Rightarrow> rval option" where
  "assigned_proto krs =
     (case map_of krs ''__proto__'' of
        None \<Rightarrow> None
      | Some r \<Rightarrow> if is_object_or_null r then Some r else None)"

definition own_entries :: "(string \<times> rval) list \<Rightarrow> (string \<times> rval) list" where
  "own_entries krs = filter (\<lambda>kr. fst kr \<noteq> ''__proto__'') krs"

definition traverseObject ::
  "(string option \<Rightarrow> nat set option \<Rightarrow> val \<Rightarrow> (rval \<times> nat set option) result)
    \<Rightarrow> 'ctx kernel \<Rightarrow> heap \<Rightarrow> options \<Rightarrow> string option \<Rightarrow> nat set option \<Rightarrow> nat
    \<Rightarrow> (string \<times> val) list \<Rightarrow> (rval \<times> nat set option) result"
where
  "traverseObject rec K h opts path visited a entries =
     (let s = (case visited of None \<Rightarrow> {} | Some s \<Rightarrow> s)
      in if a \<in> s then Some (Inr (Keep (VRef a), Some s))
         else (case traverse_entries rec K h opts path (Some (insert a s)) entries of
                 None \<Rightarrow> None
               | Some (Inl e) \<Rightarrow> Some (Inl e)
               | Some (Inr (krs, visited')) \<Rightarrow>
                   Some (Inr (NewObj (assigned_proto krs) (own_entries krs), visited'))))"

text \<open>
  \<open>traverse(obj, options, context)\<close>, where the context is the kernel, the current path
  and the visited set. The first argument bounds the nesting of the calls of
  \<open>traverse\<close>: the result is \<open>None\<close> when the traversal needs a deeper nesting.
  Whatever is no primitive and no array goes to \<open>traverseObject\<close>: plain objects,
  instances and functions alike.
\<close>

primrec traverse ::
  "nat \<Rightarrow> 'ctx kernel \<Rightarrow> heap \<Rightarrow> options \<Rightarrow> string option \<Rightarrow> nat set option \<Rightarrow> val
    \<Rightarrow> (rval \<times> nat set option) result"
where
  "traverse 0 K h opts path visited v = None"
| "traverse (Suc n) K h opts path visited v =
     (if isPrimitive v then Some (Inr (Keep v, visited))
      else if v = VNull then Some (Inr (Keep v, visited))
      else (case v of
              VRef a \<Rightarrow>
                (case h a of
                   Arr arr \<Rightarrow> traverseArray (traverse n K h opts) opts path visited a arr
                 | Obj k entries \<Rightarrow>
                     traverseObject (traverse n K h opts) K h opts path visited a entries)
            | _ \<Rightarrow> Some (Inr (Keep v, visited))))"

section \<open>Shapes\<close>






section \<open>Properties of the format engine\<close>

lemma applyFormat_card_example:
  "applyFormat ''************0366'' ''card'' ''display'' = Inr (Str ''**** **** **** 0366'')"
  by (simp add: applyFormat_def formats_def get_property_def formats_display_def)

text \<open>
  C7. For every value and every type tag \<open>t\<close>, the \<open>log\<close> format returns exactly
  \<open>"[REDACTED:" + t + "]"\<close>: the result does not depend on the value at all.
\<close>

theorem applyFormat_log:
  "applyFormat v t ''log'' = Inr (Str (''[REDACTED:'' @ t @ '']''))"
  by (simp add: applyFormat_def formats_def get_property_def formats_log_def)

theorem applyFormat_log_witness:
  "applyFormat ''e***n@o***.dev'' ''email'' ''log'' = Inr (Str ''[REDACTED:email]'')"
  using applyFormat_log [of "''e***n@o***.dev''" "''email''"] by simp


text \<open>
  A format name that is no key of the table but the name of an inherited function is
  not rejected: the function is called.
\<close>

lemma applyFormat_inherited_example:
  "applyFormat ''x'' ''card'' ''toString'' = Inr (Str ''[object Undefined]'')"
  by (simp add: applyFormat_def formats_def get_property_def Object_prototype_def
      call_inherited_def)

section \<open>Properties of numbers\<close>

lemma ilog2_bounds: "0 < n \<Longrightarrow> 2 ^ ilog2 n \<le> n \<and> n < 2 ^ Suc (ilog2 n)"
proof (induction n rule: ilog2.induct)
  case (1 n)
  show ?case
  proof (cases "n < 2")
    case True
    with "1.prems" have "n = 1" by simp
    then show ?thesis by (subst (1 2) ilog2.simps) simp
  next
    case False
    then have "2 ^ ilog2 (n div 2) \<le> n div 2 \<and> n div 2 < 2 ^ Suc (ilog2 (n div 2))"
      by (intro "1.IH") simp_all
    moreover have "ilog2 n = Suc (ilog2 (n div 2))"
      using False by (subst ilog2.simps) simp
    ultimately show ?thesis by simp linarith
  qed
qed

lemma ilog2_unique:
  assumes "2 ^ k \<le> n" and "n < 2 ^ Suc k"
  shows "ilog2 n = k"
proof -
  have "(0::int) < 2 ^ k" by simp
  with assms(1) have pos: "0 < n" by linarith
  from ilog2_bounds [OF pos] assms have a: "(2::int) ^ ilog2 n < 2 ^ Suc k"
    and b: "(2::int) ^ k < 2 ^ Suc (ilog2 n)"
    by linarith+
  have "ilog2 n < Suc k" by (rule power_less_imp_less_exp [OF _ a]) simp
  moreover have "k < Suc (ilog2 n)" by (rule power_less_imp_less_exp [OF _ b]) simp
  ultimately show ?thesis by simp
qed

lemma ilog2_mono: "m \<le> n \<Longrightarrow> ilog2 m \<le> ilog2 n"
proof (cases "m \<le> 0")
  case True
  then show ?thesis by (subst ilog2.simps) simp
next
  case False
  assume "m \<le> n"
  with False ilog2_bounds [of m] ilog2_bounds [of n]
  have a: "(2::int) ^ ilog2 m < 2 ^ Suc (ilog2 n)" by linarith
  have "ilog2 m < Suc (ilog2 n)" by (rule power_less_imp_less_exp [OF _ a]) simp
  then show ?thesis by simp
qed

lemma ilog2_shift: "0 < n \<Longrightarrow> ilog2 (n * 2 ^ e) = ilog2 n + e"
proof (rule ilog2_unique)
  assume "0 < n"
  from ilog2_bounds [OF this] show "2 ^ (ilog2 n + e) \<le> n * 2 ^ e"
    by (simp add: power_add)
  from ilog2_bounds [OF \<open>0 < n\<close>] have "n * 2 ^ e < 2 ^ Suc (ilog2 n) * 2 ^ e"
    by (intro mult_strict_right_mono) simp_all
  then show "n * 2 ^ e < 2 ^ Suc (ilog2 n + e)" by (simp add: power_add)
qed

lemma round_even_of_int: "round_even (of_int n) = n"
  by (simp add: round_even_def)

lemma round_even_floor: "\<lfloor>x\<rfloor> \<le> round_even x \<and> round_even x \<le> \<lfloor>x\<rfloor> + 1"
  by (simp add: round_even_def Let_def)

lemma round_even_mono: "x \<le> y \<Longrightarrow> round_even x \<le> round_even y"
proof -
  assume le: "x \<le> y"
  then have fl: "\<lfloor>x\<rfloor> \<le> \<lfloor>y\<rfloor>" by (rule floor_mono)
  show ?thesis
  proof (cases "\<lfloor>x\<rfloor> = \<lfloor>y\<rfloor>")
    case True
    with le have "x - of_int \<lfloor>x\<rfloor> \<le> y - of_int \<lfloor>y\<rfloor>" by simp
    with True show ?thesis by (auto simp: round_even_def Let_def)
  next
    case False
    with fl have "\<lfloor>x\<rfloor> + 1 \<le> \<lfloor>y\<rfloor>" by simp
    with round_even_floor [of x] round_even_floor [of y] show ?thesis by linarith
  qed
qed

lemma round_even_le: "x \<le> of_int n \<Longrightarrow> round_even x \<le> n"
  using round_even_mono [of x "of_int n"] by (simp add: round_even_of_int)

lemma round_even_ge: "of_int n \<le> x \<Longrightarrow> n \<le> round_even x"
  using round_even_mono [of "of_int n" x] by (simp add: round_even_of_int)

lemma nearest_in_nonneg: "0 \<le> x \<Longrightarrow> 0 \<le> nearest_in p E x"
proof -
  assume "0 \<le> x"
  then have "0 \<le> x * 2 ^ E / 2 ^ (ilog2 \<lfloor>x * 2 ^ E\<rfloor> - p)" by simp
  then have "0 \<le> round_even (x * 2 ^ E / 2 ^ (ilog2 \<lfloor>x * 2 ^ E\<rfloor> - p))"
    using round_even_ge [of 0] by simp
  then show ?thesis by (simp add: nearest_in_def Let_def)
qed

text \<open>The rounded multiple of \<open>2 ^ k\<close>, in units of the smallest number.\<close>

lemma nearest_units_mono:
  fixes s t :: rat
  assumes "0 \<le> s" and "s \<le> t"
  shows "of_int (round_even (s / 2 ^ (ilog2 \<lfloor>s\<rfloor> - p))) * 2 ^ (ilog2 \<lfloor>s\<rfloor> - p)
       \<le> (of_int (round_even (t / 2 ^ (ilog2 \<lfloor>t\<rfloor> - p))) * 2 ^ (ilog2 \<lfloor>t\<rfloor> - p) :: rat)"
proof -
  define js where "js = ilog2 \<lfloor>s\<rfloor>"
  define j where "j = ilog2 \<lfloor>t\<rfloor>"
  have fl: "\<lfloor>s\<rfloor> \<le> \<lfloor>t\<rfloor>" using assms by (simp add: floor_mono)
  then have jle: "js \<le> j" unfolding js_def j_def by (rule ilog2_mono)
  show ?thesis
  proof (cases "js - p = j - p")
    case True
    have "s / 2 ^ (j - p) \<le> t / 2 ^ (j - p)" using assms by (simp add: divide_right_mono)
    then have "round_even (s / 2 ^ (j - p)) \<le> round_even (t / 2 ^ (j - p))"
      by (rule round_even_mono)
    then have "(of_int (round_even (s / 2 ^ (j - p))) :: rat) \<le> of_int (round_even (t / 2 ^ (j - p)))"
      by simp
    then show ?thesis
      unfolding js_def [symmetric] j_def [symmetric] True
      by (simp add: mult_right_mono)
  next
    case False
    with jle have lt: "js < j" and pj: "p < j" by auto
    have tpos: "0 < \<lfloor>t\<rfloor>"
    proof (rule ccontr)
      assume "\<not> 0 < \<lfloor>t\<rfloor>"
      then have "ilog2 \<lfloor>t\<rfloor> = 0" by (subst ilog2.simps) simp
      with pj show False by (simp add: j_def)
    qed
    from ilog2_bounds [OF tpos] have "(2::int) ^ j \<le> \<lfloor>t\<rfloor>" by (simp add: j_def)
    then have tge: "(2::rat) ^ j \<le> t"
      by (metis (mono_tags) le_floor_iff of_int_numeral of_int_power)
    have "\<lfloor>s\<rfloor> < 2 ^ j"
    proof (cases "0 < \<lfloor>s\<rfloor>")
      case True
      from ilog2_bounds [OF True] have "\<lfloor>s\<rfloor> < 2 ^ Suc js" by (simp add: js_def)
      also have "\<dots> \<le> 2 ^ j" using lt by (intro power_increasing) simp_all
      finally show ?thesis .
    next
      case False
      have "(0::int) < 2 ^ j" by simp
      with False show ?thesis by linarith
    qed
    then have slt: "s < 2 ^ j"
      by (metis (mono_tags) floor_less_iff of_int_numeral of_int_power)
    have ks: "js - p \<le> j" and kt: "j - p \<le> j" using jle by simp_all
    have "s / 2 ^ (js - p) \<le> 2 ^ j / 2 ^ (js - p)"
      using slt by (simp add: divide_right_mono)
    also have "\<dots> = (2::rat) ^ (j - (js - p))" using ks by (simp add: power_diff)
    also have "\<dots> = of_int (2 ^ (j - (js - p)))" by simp
    finally have "round_even (s / 2 ^ (js - p)) \<le> 2 ^ (j - (js - p))" by (rule round_even_le)
    then have "(of_int (round_even (s / 2 ^ (js - p))) :: rat) \<le> of_int (2 ^ (j - (js - p)))"
      by (simp only: of_int_le_iff)
    then have "(of_int (round_even (s / 2 ^ (js - p))) :: rat) * 2 ^ (js - p)
        \<le> 2 ^ (j - (js - p)) * 2 ^ (js - p)"
      by (simp add: mult_right_mono)
    also have "\<dots> = (2::rat) ^ j" using ks by (simp add: power_add [symmetric])
    finally have A: "(of_int (round_even (s / 2 ^ (js - p))) :: rat) * 2 ^ (js - p) \<le> 2 ^ j" .
    have "(of_int (2 ^ (j - (j - p))) :: rat) = 2 ^ (j - (j - p))" by simp
    also have "\<dots> = 2 ^ j / 2 ^ (j - p)"
      using kt by (simp add: power_diff)
    also have "\<dots> \<le> t / 2 ^ (j - p)" using tge by (simp add: divide_right_mono)
    finally have "2 ^ (j - (j - p)) \<le> round_even (t / 2 ^ (j - p))" by (rule round_even_ge)
    then have "(of_int (2 ^ (j - (j - p))) :: rat) \<le> of_int (round_even (t / 2 ^ (j - p)))"
      by (simp only: of_int_le_iff)
    then have "(2::rat) ^ (j - (j - p)) * 2 ^ (j - p)
        \<le> of_int (round_even (t / 2 ^ (j - p))) * 2 ^ (j - p)"
      by (simp add: mult_right_mono)
    moreover have "(2::rat) ^ (j - (j - p)) * 2 ^ (j - p) = 2 ^ j"
      using kt by (simp add: power_add [symmetric])
    ultimately have B: "(2::rat) ^ j \<le> of_int (round_even (t / 2 ^ (j - p))) * 2 ^ (j - p)"
      by simp
    from A B show ?thesis unfolding js_def [symmetric] j_def [symmetric] by (rule order_trans)
  qed
qed

lemma nearest_in_mono:
  assumes "0 \<le> x" and "x \<le> y"
  shows "nearest_in p E x \<le> nearest_in p E y"
proof -
  have "0 \<le> x * 2 ^ E" "x * 2 ^ E \<le> y * 2 ^ E" using assms by (simp_all add: mult_right_mono)
  from nearest_units_mono [OF this, of p] show ?thesis
    by (simp add: nearest_in_def Let_def divide_right_mono)
qed

lemma nearest_in_nat:
  assumes "n < 2 ^ Suc p"
  shows "nearest_in p E (of_nat n) = of_nat n"
proof (cases "n = 0")
  case True
  have "ilog2 0 = 0" by (subst ilog2.simps) simp
  with True show ?thesis by (simp add: nearest_in_def round_even_def)
next
  case False
  then have pos: "0 < n" by simp
  have fl: "\<lfloor>(of_nat n :: rat) * 2 ^ E\<rfloor> = int n * 2 ^ E"
  proof -
    have "(of_nat n :: rat) * 2 ^ E = of_int (int n * 2 ^ E)" by simp
    then show ?thesis by (simp only: floor_of_int)
  qed
  have ipos: "0 < int n" using pos by simp
  have "2 ^ ilog2 (int n) \<le> int n" using ilog2_bounds [OF ipos] by simp
  also have "int n < 2 ^ Suc p" using assms by (metis of_nat_less_iff of_nat_numeral of_nat_power)
  finally have "ilog2 (int n) < Suc p" by (rule power_less_imp_less_exp [rotated]) simp
  then have le: "ilog2 (int n) \<le> p" by simp
  define k where "k = ilog2 (int n) + E - p"
  have kE: "k \<le> E" using le by (simp add: k_def)
  have "(of_nat n :: rat) * 2 ^ E / 2 ^ k = of_nat n * 2 ^ (E - k)"
    using kE by (simp add: power_diff)
  also have "\<dots> = of_int (int (n * 2 ^ (E - k)))" by simp
  finally have r: "round_even ((of_nat n :: rat) * 2 ^ E / 2 ^ k) = int (n * 2 ^ (E - k))"
    by (simp only: round_even_of_int)
  have pw: "(2::rat) ^ (E - k) * 2 ^ k = 2 ^ E"
    using kE by (simp add: power_add [symmetric])
  have "(of_int (int (n * 2 ^ (E - k))) :: rat) * 2 ^ k = of_nat n * (2 ^ (E - k) * 2 ^ k)"
    by simp
  also have "\<dots> = of_nat n * 2 ^ E" by (simp only: pw)
  finally have "(of_int (int (n * 2 ^ (E - k))) :: rat) * 2 ^ k / 2 ^ E = of_nat n * 2 ^ E / 2 ^ E"
    by (simp only:)
  then have "(of_int (int (n * 2 ^ (E - k))) :: rat) * 2 ^ k / 2 ^ E = of_nat n" by simp
  then show ?thesis
    unfolding nearest_in_def Let_def fl ilog2_shift [OF ipos] k_def [symmetric] r .
qed

lemma below_overflow: "n < 2 ^ 53 \<Longrightarrow> (of_nat n :: rat) < 2 ^ 1024"
proof -
  assume "n < 2 ^ 53"
  then have "(of_nat n :: rat) < of_nat (2 ^ 53)" by (simp only: of_nat_less_iff)
  also have "\<dots> = 2 ^ 53" by simp
  also have "\<dots> \<le> 2 ^ 1024" by (rule power_increasing) simp_all
  finally show ?thesis .
qed

lemma round_double_nat:
  assumes "n < 2 ^ 53"
  shows "round_double (of_nat n) = Fin (of_nat n)"
proof -
  from assms have "n < 2 ^ Suc 52" by simp
  then have "nearest_in 52 1074 (of_nat n) = of_nat n" by (rule nearest_in_nat)
  moreover have "\<not> (2 ^ 1024 \<le> (of_nat n :: rat))" using below_overflow [OF assms] by simp
  ultimately show ?thesis by (simp add: round_double_def Let_def)
qed

lemma round_double_bounded:
  assumes "0 \<le> x" and "x \<le> of_nat n" and "n < 2 ^ 53"
  shows "\<exists>y. round_double x = Fin y \<and> 0 \<le> y \<and> y \<le> of_nat n"
proof -
  from assms(3) have "n < 2 ^ Suc 52" by simp
  then have "nearest_in 52 1074 (of_nat n) = of_nat n" by (rule nearest_in_nat)
  with nearest_in_mono [OF assms(1,2), of 52 1074]
  have le: "nearest_in 52 1074 x \<le> of_nat n" by simp
  with below_overflow [OF assms(3)] have "\<not> (2 ^ 1024 \<le> nearest_in 52 1074 x)" by simp
  moreover have "\<bar>x\<bar> = x" using assms(1) by simp
  ultimately have "round_double x = Fin (nearest_in 52 1074 x)"
    using assms(1) by (simp add: round_double_def Let_def)
  with le nearest_in_nonneg [OF assms(1), of 52 1074] show ?thesis by simp
qed

lemma round_double_ge:
  assumes "of_nat n \<le> x" and "n < 2 ^ 53"
  shows "js_le (Fin (of_nat n)) (round_double x)"
proof -
  from assms(2) have "n < 2 ^ Suc 52" by simp
  then have "nearest_in 52 1074 (of_nat n) = of_nat n" by (rule nearest_in_nat)
  with nearest_in_mono [OF _ assms(1), of 52 1074]
  have le: "of_nat n \<le> nearest_in 52 1074 x" by simp
  have x: "0 \<le> x" "\<bar>x\<bar> = x" using assms(1) by (simp_all add: order_trans [OF of_nat_0_le_iff])
  with le show ?thesis by (simp add: round_double_def Let_def)
qed

lemma round_double_nonpos:
  assumes "x \<le> 0"
  shows "js_le (round_double x) (Fin 0)"
proof (cases "x = 0")
  case True
  have "round_double 0 = Fin 0" using round_double_nat [of 0] by simp
  with True show ?thesis by simp
next
  case False
  with assms have "x < 0" by simp
  moreover have "0 \<le> nearest_in 52 1074 \<bar>x\<bar>" by (rule nearest_in_nonneg) simp
  ultimately show ?thesis by (simp add: round_double_def Let_def)
qed

lemma round_double_pos:
  assumes "1 \<le> x"
  shows "\<not> js_le (round_double x) (Fin 0)"
proof -
  have "js_le (Fin (of_nat 1)) (round_double x)"
    using assms by (intro round_double_ge) simp_all
  then show ?thesis by (cases "round_double x") auto
qed

lemma round_double_neg_int:
  assumes "x \<le> - 1"
  shows "\<not> js_le (Fin 0) (round_double x)"
proof -
  have "of_nat 1 \<le> - x" using assms by simp
  then have "js_le (Fin (of_nat 1)) (round_double (- x))"
    by (intro round_double_ge) simp_all
  moreover have "round_double x = js_neg (round_double (- x))"
    using assms by (simp add: round_double_def Let_def)
  ultimately show ?thesis by (cases "round_double (- x)") auto
qed

section \<open>Properties of the strategy engine\<close>

lemma concat_replicate_single: "concat (replicate k [c]) = replicate k c"
  by (induction k) simp_all

lemma repeat_char_num: "repeat [c] (num k) = Inr (replicate k c)"
  by (simp add: repeat_def num_def concat_replicate_single)


lemma split_no_sep: "c \<notin> set t \<Longrightarrow> split c t = [t]"
  by (induction t) auto

lemma split_first_prefix:
  "CHR '':'' \<notin> set t \<Longrightarrow> split CHR '':'' (''first:'' @ t) = [''first'', t]"
  by (simp add: split_no_sep)

lemma is_digit_digit_char: "d < 10 \<Longrightarrow> is_digit (digit_char d)"
proof -
  assume "d < 10"
  then have "d \<in> {0,1,2,3,4,5,6,7,8,9}" by auto
  then show ?thesis by (auto simp: is_digit_def digit_char_def)
qed

lemma digit_val_digit_char: "d < 10 \<Longrightarrow> digit_val (digit_char d) = d"
proof -
  assume "d < 10"
  then have "d \<in> {0,1,2,3,4,5,6,7,8,9}" by auto
  then show ?thesis by (auto simp: digit_char_def digit_val_def)
qed

lemma is_digit_not_space: "is_digit c \<Longrightarrow> \<not> is_space c"
  by (auto simp: is_digit_def is_space_def)

lemma is_digit_not_sign: "is_digit c \<Longrightarrow> c \<noteq> CHR ''-'' \<and> c \<noteq> CHR ''+'' \<and> c \<noteq> CHR '':''"
  by (auto simp: is_digit_def)

lemma show_nat_digits: "list_all is_digit (show_nat n)"
  by (induction n rule: show_nat.induct)
     (subst show_nat.simps, simp add: is_digit_digit_char)

lemma show_nat_nonempty: "show_nat n \<noteq> []"
  by (subst show_nat.simps) simp

lemma digits_val_snoc: "digits_val (ds @ [c]) = 10 * digits_val ds + int (digit_val c)"
  by (simp add: digits_val_def)

lemma digits_val_show_nat: "digits_val (show_nat n) = int n"
proof (induction n rule: show_nat.induct)
  case (1 n)
  show ?case
  proof (cases "n < 10")
    case True
    then show ?thesis by (subst show_nat.simps) (simp add: digits_val_def digit_val_digit_char)
  next
    case False
    with 1 have "digits_val (show_nat (n div 10)) = int (n div 10)" by simp
    moreover have "10 * int (n div 10) + int (n mod 10) = int n" by presburger
    ultimately show ?thesis using False
      by (subst show_nat.simps) (simp add: digits_val_snoc digit_val_digit_char)
  qed
qed



lemma takeWhile_all: "list_all P xs \<Longrightarrow> takeWhile P xs = xs"
  by (induction xs) auto

lemma show_nat_hd: "\<exists>c cs. show_nat n = c # cs \<and> is_digit c"
proof -
  obtain c cs where "show_nat n = c # cs"
    using show_nat_nonempty [of n] by (cases "show_nat n") auto
  moreover have "is_digit c"
    using show_nat_digits [of n] calculation by simp
  ultimately show ?thesis by blast
qed


lemma parseInt_show_nat: "parseInt (show_nat n) = round_double (of_nat n)"
proof -
  obtain c cs where sn: "show_nat n = c # cs" and d: "is_digit c"
    using show_nat_hd by blast
  have a: "dropWhile is_space (show_nat n) = show_nat n"
    using sn d by (simp add: is_digit_not_space)
  have b: "read_sign (show_nat n) = (1, show_nat n)"
    using sn d is_digit_not_sign [of c] by (simp add: read_sign_def)
  have c: "takeWhile is_digit (show_nat n) = show_nat n"
    by (rule takeWhile_all [OF show_nat_digits])
  show ?thesis
    by (simp add: parseInt_def a b c show_nat_nonempty digits_val_show_nat)
qed

lemma parseInt_show_int: "parseInt (show_int i) = round_double (of_int i)"
proof (cases "i < 0")
  case True
  have c: "takeWhile is_digit (show_nat (nat (- i))) = show_nat (nat (- i))"
    by (rule takeWhile_all [OF show_nat_digits])
  have "\<not> is_space CHR ''-''" by (simp add: is_space_def)
  then show ?thesis using True
    by (simp add: show_int_def parseInt_def read_sign_def c show_nat_nonempty
        digits_val_show_nat)
next
  case False
  then show ?thesis
    by (simp add: show_int_def parseInt_show_nat)
qed

lemma show_int_no_colon: "CHR '':'' \<notin> set (show_int i)"
proof -
  have "CHR '':'' \<notin> set (show_nat n)" for n
    using show_nat_digits [of n] is_digit_not_sign by (auto simp: list_all_iff)
  then show ?thesis by (simp add: show_int_def)
qed

lemma repeat_char_nat: "repeat [c] (Fin (of_nat k)) = Inr (replicate k c)"
  using repeat_char_num [of c k] by (simp add: num_def)

lemma length_minus:
  assumes "m \<le> k" and "k < 2 ^ 53"
  shows "js_sub (num k) (num m) = num (k - m)"
proof -
  have e: "(of_nat k :: rat) - of_nat m = of_nat (k - m)"
    using assms(1) by (simp add: of_nat_diff)
  have "k - m < 2 ^ 53" using assms(2) by linarith
  then have r: "round_double (of_nat (k - m)) = Fin (of_nat (k - m))" by (rule round_double_nat)
  have "js_sub (num k) (num m) = round_double (of_nat k - of_nat m)"
    by (simp add: js_sub_def num_def)
  also have "\<dots> = Fin (of_nat (k - m))" by (simp only: e r)
  finally show ?thesis by (simp only: num_def)
qed

lemma round_int_nonpos: "i \<le> 0 \<Longrightarrow> js_le (round_double (of_int i)) (num 0)"
proof -
  assume "i \<le> 0"
  then have "js_le (round_double (of_int i)) (Fin 0)" by (intro round_double_nonpos) simp
  then show ?thesis by (simp add: num_def)
qed

lemma round_int_pos: "0 < i \<Longrightarrow> \<not> js_le (round_double (of_int i)) (num 0)"
proof -
  assume "0 < i"
  then have "\<not> js_le (round_double (of_int i)) (Fin 0)" by (intro round_double_pos) simp
  then show ?thesis by (simp add: num_def)
qed

lemma round_int_ge:
  assumes "int k \<le> i" and "k < 2 ^ 53"
  shows "js_ge (round_double (of_int i)) (num k)"
proof -
  from assms(1) have "(of_int (int k) :: rat) \<le> of_int i" by (simp only: of_int_le_iff)
  then have "(of_nat k :: rat) \<le> of_int i" by simp
  then show ?thesis unfolding js_ge_def num_def using assms(2) by (rule round_double_ge)
qed

lemma round_int_exact:
  assumes "0 \<le> i" and "i < int k" and "k < 2 ^ 53"
  shows "round_double (of_int i) = num (nat i)"
proof -
  have "nat i < 2 ^ 53" using assms by linarith
  then have "round_double (of_nat (nat i)) = Fin (of_nat (nat i))" by (rule round_double_nat)
  moreover have "(of_nat (nat i) :: rat) = of_int i" using assms(1) by simp
  ultimately show ?thesis by (simp only: num_def)
qed

lemma strategies_first_show_int:
  assumes "length v < 2 ^ 53"
  shows "strategies_first v (''first:'' @ show_int i) [c]
     = Inr (take (nat i) v @ replicate (length v - nat i) c)"
proof -
  have n: "parseInt (to_string (item (split CHR '':'' (''first:'' @ show_int i)) 1))
      = round_double (of_int i)"
    by (subst split_first_prefix [OF show_int_no_colon]) (simp add: parseInt_show_int)
  show ?thesis
  proof (cases "i \<le> 0")
    case True
    have "strategies_first v (''first:'' @ show_int i) [c] = repeat [c] (num (length v))"
      unfolding strategies_first_def n Let_def
      by (simp only: round_int_nonpos [OF True] if_True)
    also have "\<dots> = Inr (replicate (length v) c)" by (rule repeat_char_num)
    finally show ?thesis using True by simp
  next
    case False
    then have pos: "0 < i" by simp
    show ?thesis
    proof (cases "int (length v) \<le> i")
      case True
      have "strategies_first v (''first:'' @ show_int i) [c] = Inr v"
        unfolding strategies_first_def n Let_def
        by (simp only: round_int_pos [OF pos] round_int_ge [OF True assms] if_True if_False)
      then show ?thesis using True by simp
    next
      case False
      then have lt: "nat i < length v" using pos by linarith
      have r: "round_double (of_int i) = num (nat i)"
        using pos False assms by (intro round_int_exact [of i "length v"]) simp_all
      have cnt: "js_sub (num (length v)) (num (nat i)) = num (length v - nat i)"
        using lt assms by (intro length_minus) simp_all
      have idx: "to_index (length v) (num (nat i)) = nat i"
        using lt by (simp add: num_def)
      have cmp: "\<not> js_le (num (nat i)) (num 0)" "\<not> js_ge (num (nat i)) (num (length v))"
        using lt pos by (simp_all add: num_def js_ge_def)
      have "strategies_first v (''first:'' @ show_int i) [c]
          = Inr (substring v 0 (nat i) @ replicate (length v - nat i) c)"
        unfolding strategies_first_def n Let_def r
        by (simp only: cmp cnt idx if_False repeat_char_num sum.case)
      then show ?thesis by (simp add: substring_def)
    qed
  qed
qed

lemma strategyName_first: "CHR '':'' \<notin> set t \<Longrightarrow> strategyName (''first:'' @ t) = ''first''"
  unfolding strategyName_def by (subst split_first_prefix) simp_all

text \<open>
  C6. For every string \<open>v\<close> (a JavaScript string: fewer than \<open>2 ^ 53\<close> code units),
  integer \<open>N\<close> and mask character \<open>c\<close>, the strategy \<open>'first:' + N\<close> keeps the first
  \<open>N\<close> characters of \<open>v\<close> and replaces every other character by \<open>c\<close>; for
  \<open>N \<le> 0\<close> every character is replaced, for \<open>N \<ge> length v\<close> the value comes back
  unchanged; and \<open>applyStrategy("ABCDEFGHIJ", "first:3", "*")\<close> is \<open>"ABC*******"\<close>.
\<close>

theorem applyStrategy_first:
  assumes "length v < 2 ^ 53"
  shows "applyStrategy v (''first:'' @ show_int N) [c]
     = Inr (Str (take (nat N) v @ replicate (length v - nat N) c))
   \<and> (N \<le> 0 \<longrightarrow> applyStrategy v (''first:'' @ show_int N) [c] = Inr (Str (replicate (length v) c)))
   \<and> (int (length v) \<le> N \<longrightarrow> applyStrategy v (''first:'' @ show_int N) [c] = Inr (Str v))
   \<and> applyStrategy ''ABCDEFGHIJ'' ''first:3'' ''*'' = Inr (Str ''ABC*******'')"
proof -
  have main: "applyStrategy v (''first:'' @ show_int N) [c]
     = Inr (Str (take (nat N) v @ replicate (length v - nat N) c))"
    if "length v < 2 ^ 53" for v N c
    unfolding applyStrategy_def strategyName_first [OF show_int_no_colon]
    using strategies_first_show_int [OF that, of N c]
    by (simp add: strategies_def get_property_def)
  have three: "show_int 3 = ''3''"
    by (simp add: show_int_def show_nat.simps digit_char_def)
  have "length ''ABCDEFGHIJ'' < 2 ^ 53" by simp
  then have "applyStrategy ''ABCDEFGHIJ'' (''first:'' @ show_int 3) [CHR ''*'']
      = Inr (Str (take (nat 3) ''ABCDEFGHIJ'' @ replicate (length ''ABCDEFGHIJ'' - nat 3) CHR ''*''))"
    by (rule main)
  then have ex: "applyStrategy ''ABCDEFGHIJ'' ''first:3'' ''*'' = Inr (Str ''ABC*******'')"
    by (simp add: three eval_nat_numeral)
  have le: "N \<le> 0 \<longrightarrow> applyStrategy v (''first:'' @ show_int N) [c] = Inr (Str (replicate (length v) c))"
    unfolding main [OF assms] by simp
  have ge: "int (length v) \<le> N \<longrightarrow> applyStrategy v (''first:'' @ show_int N) [c] = Inr (Str v)"
    unfolding main [OF assms] by simp
  from main [OF assms, of N c] le ge ex show ?thesis by blast
qed

theorem applyStrategy_first_witness:
  "length ''secret'' < 2 ^ 53
   \<and> applyStrategy ''secret'' ''first:-2'' ''#'' = Inr (Str ''######'')
   \<and> applyStrategy ''secret'' ''first:2'' ''#'' = Inr (Str ''se####'')
   \<and> applyStrategy ''secret'' ''first:10'' ''#'' = Inr (Str ''secret'')"
proof -
  have a: "show_int (- 2) = ''-2''" "show_int 2 = ''2''" "show_int 10 = ''10''"
    by (simp_all add: show_int_def show_nat.simps digit_char_def)
  have l: "length ''secret'' < 2 ^ 53" by simp
  have "applyStrategy ''secret'' ''first:-2'' ''#'' = Inr (Str ''######'')
   \<and> applyStrategy ''secret'' ''first:2'' ''#'' = Inr (Str ''se####'')
   \<and> applyStrategy ''secret'' ''first:10'' ''#'' = Inr (Str ''secret'')"
    using applyStrategy_first [OF l, of "- 2" "CHR ''#''"]
      applyStrategy_first [OF l, of "2" "CHR ''#''"]
      applyStrategy_first [OF l, of "10" "CHR ''#''"]
    unfolding a by (simp add: eval_nat_numeral)
  with l show ?thesis by (rule conjI)
qed

lemma parseInt_cases: "parseInt t = NaN \<or> (\<exists>i. parseInt t = round_double (of_int i))"
proof -
  obtain sign u where su: "read_sign (dropWhile is_space t) = (sign, u)"
    by (cases "read_sign (dropWhile is_space t)")
  show ?thesis
  proof (cases "takeWhile is_digit u = []")
    case True
    then show ?thesis by (simp add: parseInt_def su)
  next
    case False
    then have "parseInt t = round_double (of_int (sign * digits_val (takeWhile is_digit u)))"
      by (simp add: parseInt_def su del: of_int_mult)
    then show ?thesis by blast
  qed
qed

lemma min_count:
  assumes "js_ge (round_double (of_int i)) (num 0)" and "k < 2 ^ 53"
  shows "\<exists>m\<le>k. Math_min (round_double (of_int i)) (num k) = num m"
proof -
  have nonneg: "0 \<le> i"
  proof (rule ccontr)
    assume "\<not> 0 \<le> i"
    then have "i \<le> - 1" by linarith
    then have "(of_int i :: rat) \<le> of_int (- 1)" by (simp only: of_int_le_iff)
    then have "(of_int i :: rat) \<le> - 1" by simp
    from round_double_neg_int [OF this] assms(1) show False by (simp add: js_ge_def num_def)
  qed
  show ?thesis
  proof (cases "i < int k")
    case True
    with nonneg assms(2) have "round_double (of_int i) = num (nat i)" by (intro round_int_exact)
    moreover have le: "nat i \<le> k" using True by linarith
    moreover have "Math_min (num (nat i)) (num k) = num (nat i)"
      using le by (simp add: num_def)
    ultimately show ?thesis by auto
  next
    case False
    then have "int k \<le> i" by simp
    from round_int_ge [OF this assms(2)] have ge: "js_le (num k) (round_double (of_int i))"
      by (simp add: js_ge_def)
    have "Math_min (round_double (of_int i)) (num k) = num k"
    proof (cases "round_double (of_int i)")
      case (Fin y)
      with ge show ?thesis by (auto simp: num_def)
    qed (use ge in \<open>simp_all add: num_def\<close>)
    then show ?thesis by auto
  qed
qed

lemma parsed_count:
  assumes "\<not> isNaN (parseInt t)" and "js_ge (parseInt t) (num 0)" and "k < 2 ^ 53"
  shows "\<exists>m\<le>k. Math_min (parseInt t) (num k) = num m"
proof -
  from parseInt_cases [of t] assms(1) obtain i where i: "parseInt t = round_double (of_int i)"
    by auto
  from assms(2,3) show ?thesis unfolding i by (rule min_count)
qed

lemma ratio_count:
  assumes "\<not> isNaN ratio" and "js_ge ratio (num 0)" and "js_le ratio (num 1)" and "k < 2 ^ 53"
  shows "\<exists>m\<le>k. Math_floor (js_mul (num k) ratio) = num m"
proof (cases ratio)
  case (Fin r)
  with assms have r: "0 \<le> r" "r \<le> 1" by (simp_all add: js_ge_def num_def)
  then have "0 \<le> of_nat k * r" "of_nat k * r \<le> of_nat k"
    by (simp_all add: mult_left_le)
  from round_double_bounded [OF this assms(4)] obtain y where
    y: "round_double (of_nat k * r) = Fin y" "0 \<le> y" "y \<le> of_nat k" by blast
  have "\<lfloor>y\<rfloor> \<le> int k" using y(3) by (simp add: floor_le_iff) 
  moreover have "0 \<le> \<lfloor>y\<rfloor>" using y(2) by simp
  ultimately have "nat \<lfloor>y\<rfloor> \<le> k" "(of_int \<lfloor>y\<rfloor> :: rat) = of_nat (nat \<lfloor>y\<rfloor>)" by simp_all
  with Fin y(1) show ?thesis by (auto simp: num_def)
qed (use assms in \<open>simp_all add: js_ge_def num_def\<close>)

lemma getVisibleCount_count:
  assumes "isValidStrategy s" and "length v < 2 ^ 53"
  shows "\<exists>m\<le>length v. getVisibleCount v s = num m"
proof -
  have zero: "\<exists>m\<le>length v. num 0 = num m" by auto
  have two: "\<exists>m\<le>length v. Math_min (num 2) (num (length v)) = num m"
    by (rule exI [of _ "min 2 (length v)"]) (simp add: num_def min_def)
  consider (const) "length v = 0 \<or> s = ''full'' \<or> s = ''first:0'' \<or> s = ''last:0'' \<or> s = ''partial:0''"
    | (middle) "length v \<noteq> 0" "s = ''middle''"
    | (first) "length v \<noteq> 0" "s \<noteq> ''full''" "s \<noteq> ''middle''" "s \<noteq> ''first:0''" "s \<noteq> ''last:0''"
        "s \<noteq> ''partial:0''" "startsWith s ''first:''"
    | (last) "length v \<noteq> 0" "s \<noteq> ''full''" "s \<noteq> ''middle''" "s \<noteq> ''first:0''" "s \<noteq> ''last:0''"
        "s \<noteq> ''partial:0''" "\<not> startsWith s ''first:''" "startsWith s ''last:''"
    | (partial) "length v \<noteq> 0" "s \<noteq> ''full''" "s \<noteq> ''middle''" "s \<noteq> ''first:0''" "s \<noteq> ''last:0''"
        "s \<noteq> ''partial:0''" "\<not> startsWith s ''first:''" "\<not> startsWith s ''last:''"
        "startsWith s ''partial:''"
    | (none) "s \<noteq> ''full''" "s \<noteq> ''middle''" "\<not> startsWith s ''first:''" "\<not> startsWith s ''last:''"
        "\<not> startsWith s ''partial:''"
    by blast
  then show ?thesis
  proof cases
    case const
    have "getVisibleCount v s = num 0"
      unfolding getVisibleCount_def using const by (auto simp: startsWith_def)
    with zero show ?thesis by simp
  next
    case middle
    have "getVisibleCount v s = Math_min (num 2) (num (length v))"
      unfolding getVisibleCount_def using middle by simp
    with two show ?thesis by simp
  next
    case first
    from assms(1) first have
      "\<not> isNaN (parseInt (or_zero (item (split CHR '':'' s) 1)))"
      "js_ge (parseInt (or_zero (item (split CHR '':'' s) 1))) (num 0)"
      by (simp_all add: isValidStrategy_def Let_def)
    from parsed_count [OF this assms(2)] show ?thesis
      unfolding getVisibleCount_def Let_def using first by simp
  next
    case last
    from assms(1) last have
      "\<not> isNaN (parseInt (or_zero (item (split CHR '':'' s) 1)))"
      "js_ge (parseInt (or_zero (item (split CHR '':'' s) 1))) (num 0)"
      by (simp_all add: isValidStrategy_def Let_def)
    from parsed_count [OF this assms(2)] show ?thesis
      unfolding getVisibleCount_def Let_def using last by simp
  next
    case partial
    from assms(1) partial have
      "\<not> isNaN (parseFloat (or_zero (item (split CHR '':'' s) 1)))"
      "js_ge (parseFloat (or_zero (item (split CHR '':'' s) 1))) (num 0)"
      "js_le (parseFloat (or_zero (item (split CHR '':'' s) 1))) (num 1)"
      by (simp_all add: isValidStrategy_def Let_def)
    from ratio_count [OF this assms(2)] show ?thesis
      unfolding getVisibleCount_def Let_def using partial by simp
  next
    case none
    with assms(1) show ?thesis by (simp add: isValidStrategy_def)
  qed
qed

lemma length_plus:
  assumes "m \<le> k" and "k < 2 ^ 53"
  shows "js_add (num m) (num (k - m)) = num k"
proof -
  have "(of_nat m :: rat) + of_nat (k - m) = of_nat k"
    using assms(1) by (simp add: of_nat_diff)
  moreover have "round_double (of_nat k) = Fin (of_nat k)" using assms(2) by (rule round_double_nat)
  ultimately show ?thesis by (simp only: num_def js_add.simps)
qed

text \<open>
  C8. For every string \<open>v\<close> (a JavaScript string: fewer than \<open>2 ^ 53\<close> code units) and
  every strategy \<open>s\<close> that \<open>isValidStrategy\<close> accepts, both counts are whole numbers
  between 0 and the length of \<open>v\<close>, and \<open>getVisibleCount(v, s) + getMaskedCount(v, s)\<close>,
  the sum of two doubles, is the length of \<open>v\<close>.
\<close>

theorem visible_plus_masked:
  assumes "isValidStrategy s" and "length v < 2 ^ 53"
  shows "js_add (getVisibleCount v s) (getMaskedCount v s) = num (length v)
    \<and> (\<exists>m\<le>length v. getVisibleCount v s = num m \<and> getMaskedCount v s = num (length v - m))"
proof -
  from getVisibleCount_count [OF assms] obtain m where
    m: "m \<le> length v" "getVisibleCount v s = num m" by blast
  have masked: "getMaskedCount v s = num (length v - m)"
  proof (cases "length v = 0")
    case True
    then show ?thesis by (simp add: getMaskedCount_def)
  next
    case False
    then have "getMaskedCount v s = js_sub (num (length v)) (num m)"
      by (simp add: getMaskedCount_def m(2))
    also have "\<dots> = num (length v - m)" using m(1) assms(2) by (rule length_minus)
    finally show ?thesis .
  qed
  have "js_add (getVisibleCount v s) (getMaskedCount v s) = num (length v)"
    unfolding m(2) masked using m(1) assms(2) by (rule length_plus)
  with m masked show ?thesis by blast
qed

lemma nearest_in_normal:
  assumes "2 ^ p \<le> x * 2 ^ m" and "x * 2 ^ m < 2 ^ Suc p" and "m \<le> E"
  shows "nearest_in p E x = of_int (round_even (x * 2 ^ m)) / 2 ^ m"
proof -
  define d where "d = E - m"
  have E: "E = m + d" using assms(3) by (simp add: d_def)
  have s: "x * 2 ^ E = x * 2 ^ m * 2 ^ d" by (simp add: E power_add)
  have "(2::rat) ^ (p + d) = 2 ^ p * 2 ^ d" by (simp add: power_add)
  also have "\<dots> \<le> x * 2 ^ m * 2 ^ d" using assms(1) by (simp add: mult_right_mono)
  finally have "of_int (2 ^ (p + d)) \<le> x * 2 ^ E" by (simp add: s)
  then have lo: "2 ^ (p + d) \<le> \<lfloor>x * 2 ^ E\<rfloor>" by (simp only: le_floor_iff)
  have "x * 2 ^ m * 2 ^ d < 2 ^ Suc p * 2 ^ d"
    using assms(2) by (intro mult_strict_right_mono) simp_all
  also have "\<dots> = (2::rat) ^ Suc (p + d)" by (simp add: power_add)
  finally have "x * 2 ^ E < of_int (2 ^ Suc (p + d))" by (simp add: s)
  then have hi: "\<lfloor>x * 2 ^ E\<rfloor> < 2 ^ Suc (p + d)" by (simp only: floor_less_iff)
  from lo hi have k: "ilog2 \<lfloor>x * 2 ^ E\<rfloor> - p = d" by (simp add: ilog2_unique)
  have q: "x * 2 ^ E / 2 ^ d = x * 2 ^ m" by (simp add: s)
  have "of_int (round_even (x * 2 ^ m)) * (2::rat) ^ d / 2 ^ E
      = of_int (round_even (x * 2 ^ m)) / 2 ^ m"
    by (simp add: E power_add)
  then show ?thesis unfolding nearest_in_def Let_def k q .
qed

lemma round_even_down:
  assumes "of_int f \<le> x" and "x < of_int f + 1 / 2"
  shows "round_even x = f"
proof -
  have "\<lfloor>x\<rfloor> = f" using assms by (intro floor_unique) simp_all
  with assms show ?thesis by (simp add: round_even_def Let_def)
qed

lemma round_even_up:
  assumes "of_int f + 1 / 2 < x" and "x < of_int f + 1"
  shows "round_even x = f + 1"
proof -
  have "\<lfloor>x\<rfloor> = f" using assms by (intro floor_unique) simp_all
  with assms show ?thesis by (simp add: round_even_def Let_def)
qed

lemma parseFloat_058: "parseFloat ''0.58'' = Fin (5224175567749775 / 2 ^ 53)"
proof -
  have "parseFloat ''0.58'' = round_double (29 / 50)"
    by (simp add: parseFloat_def read_sign_def is_space_def is_digit_def digits_val_def
        digit_val_def read_exponent_def scale10_def)
  moreover have "nearest_in 52 1074 (29 / 50) = of_int (round_even (29 / 50 * 2 ^ 53)) / 2 ^ 53"
    by (rule nearest_in_normal) simp_all
  moreover have "round_even (29 / 50 * 2 ^ 53) = 5224175567749775"
    by (rule round_even_down) simp_all
  ultimately show ?thesis by (simp add: round_double_def)
qed

lemma ratio_058: "parseFloat (or_zero (item (split CHR '':'' ''partial:0.58'') 1))
    = Fin (5224175567749775 / 2 ^ 53)"
  using parseFloat_058 by simp

lemma isValidStrategy_partial_example: "isValidStrategy ''partial:0.58''"
  unfolding isValidStrategy_def Let_def ratio_058
  by (simp add: startsWith_def js_ge_def num_def)

text \<open>
  The product \<open>50 * 0.58\<close> of two doubles is the double just below 29, so 28
  characters are visible.
\<close>

lemma floor_product_example:
  "Math_floor (js_mul (num 50) (Fin (5224175567749775 / 2 ^ 53))) = num 28"
proof -
  let ?x = "50 * (5224175567749775 / 2 ^ 53) :: rat"
  have "nearest_in 52 1074 ?x = of_int (round_even (?x * 2 ^ 48)) / 2 ^ 48"
    by (rule nearest_in_normal) simp_all
  moreover have "round_even (?x * 2 ^ 48) = 8162774324609023"
    by (rule round_even_down) simp_all
  ultimately have "round_double ?x = Fin (8162774324609023 / 2 ^ 48)"
    by (simp add: round_double_def)
  moreover have "\<lfloor>8162774324609023 / 2 ^ 48 :: rat\<rfloor> = 28"
    by (rule floor_unique) simp_all
  ultimately show ?thesis by (simp add: num_def)
qed

lemma getVisibleCount_partial_example:
  "getVisibleCount (replicate 50 CHR ''a'') ''partial:0.58'' = num 28"
  unfolding getVisibleCount_def Let_def ratio_058 length_replicate floor_product_example
  by (simp add: startsWith_def)

lemma applyStrategy_partial_example:
  "applyStrategy (replicate 50 CHR ''a'') ''partial:0.58'' ''*''
     = Inr (Str (replicate 28 CHR ''a'' @ replicate 22 CHR ''*''))"
proof -
  have r: "parseFloat (to_string (item (split CHR '':'' ''partial:0.58'') 1))
      = Fin (5224175567749775 / 2 ^ 53)"
    using parseFloat_058 by simp
  have c: "\<not> js_le (Fin (5224175567749775 / 2 ^ 53)) (num 0)"
    "\<not> js_ge (Fin (5224175567749775 / 2 ^ 53)) (num 1)"
    by (simp_all add: num_def js_ge_def)
  have m: "js_sub (num 50) (num 28) = num 22"
    using length_minus [of 28 50] by simp
  have "strategies_partial (replicate 50 CHR ''a'') ''partial:0.58'' ''*''
      = Inr (substring (replicate 50 CHR ''a'') 0 (to_index 50 (num 28)) @ replicate 22 CHR ''*'')"
    unfolding strategies_partial_def Let_def r length_replicate floor_product_example m
    by (simp only: c if_False repeat_char_num sum.case)
  moreover have "substring (replicate 50 CHR ''a'') 0 (to_index 50 (num 28)) = replicate 28 CHR ''a''"
    by (simp add: num_def substring_def)
  ultimately show ?thesis
    by (simp add: applyStrategy_def strategyName_def strategies_def get_property_def)
qed

text \<open>A ratio that is above 1 as a decimal and rounds to the double 1 is accepted.\<close>

lemma isValidStrategy_rounding_example: "isValidStrategy ''partial:1.00000000000000001''"
proof -
  let ?x = "100000000000000001 / 100000000000000000 :: rat"
  have "parseFloat ''1.00000000000000001'' = round_double ?x"
    by (simp add: parseFloat_def read_sign_def is_space_def is_digit_def digits_val_def
        digit_val_def read_exponent_def scale10_def)
  moreover have "nearest_in 52 1074 ?x = of_int (round_even (?x * 2 ^ 52)) / 2 ^ 52"
    by (rule nearest_in_normal) simp_all
  moreover have "round_even (?x * 2 ^ 52) = 4503599627370496"
    by (rule round_even_down) simp_all
  ultimately have "parseFloat ''1.00000000000000001'' = Fin 1"
    by (simp add: round_double_def)
  then have "parseFloat (or_zero (item (split CHR '':'' ''partial:1.00000000000000001'') 1)) = Fin 1"
    by simp
  then show ?thesis
    unfolding isValidStrategy_def Let_def
    by (simp add: startsWith_def js_ge_def num_def)
qed

theorem visible_plus_masked_witness:
  "isValidStrategy ''partial:0.58'' \<and> length (replicate 50 CHR ''a'') < 2 ^ 53
   \<and> js_add (getVisibleCount (replicate 50 CHR ''a'') ''partial:0.58'')
        (getMaskedCount (replicate 50 CHR ''a'') ''partial:0.58'') = num 50
   \<and> getVisibleCount (replicate 50 CHR ''a'') ''partial:0.58'' = num 28
   \<and> getMaskedCount (replicate 50 CHR ''a'') ''partial:0.58'' = num 22"
proof -
  have l: "length (replicate 50 CHR ''a'') < 2 ^ 53" by simp
  from visible_plus_masked [OF isValidStrategy_partial_example l]
  obtain m where m: "js_add (getVisibleCount (replicate 50 CHR ''a'') ''partial:0.58'')
        (getMaskedCount (replicate 50 CHR ''a'') ''partial:0.58'') = num 50"
    "getVisibleCount (replicate 50 CHR ''a'') ''partial:0.58'' = num m"
    "getMaskedCount (replicate 50 CHR ''a'') ''partial:0.58'' = num (50 - m)"
    by auto
  from m(2) have "m = 28" by (simp add: getVisibleCount_partial_example num_def)
  with m isValidStrategy_partial_example l show ?thesis by simp
qed

lemma nearest_in_large:
  assumes "2 ^ p \<le> x / 2 ^ m" and "x / 2 ^ m < 2 ^ Suc p"
  shows "nearest_in p E x = of_int (round_even (x / 2 ^ m)) * 2 ^ m"
proof -
  have s: "x * 2 ^ E = x / 2 ^ m * 2 ^ (m + E)" by (simp add: power_add)
  have "(2::rat) ^ (p + (m + E)) = 2 ^ p * 2 ^ (m + E)" by (simp add: power_add)
  also have "\<dots> \<le> x / 2 ^ m * 2 ^ (m + E)" using assms(1) by (intro mult_right_mono) simp_all
  finally have "of_int (2 ^ (p + (m + E))) \<le> x * 2 ^ E" by (simp add: s)
  then have lo: "2 ^ (p + (m + E)) \<le> \<lfloor>x * 2 ^ E\<rfloor>" by (simp only: le_floor_iff)
  have "x / 2 ^ m * 2 ^ (m + E) < 2 ^ Suc p * 2 ^ (m + E)"
    using assms(2) by (intro mult_strict_right_mono) simp_all
  also have "\<dots> = (2::rat) ^ Suc (p + (m + E))" by (simp add: power_add)
  finally have "x * 2 ^ E < of_int (2 ^ Suc (p + (m + E)))" by (simp add: s)
  then have hi: "\<lfloor>x * 2 ^ E\<rfloor> < 2 ^ Suc (p + (m + E))" by (simp only: floor_less_iff)
  from lo hi have k: "ilog2 \<lfloor>x * 2 ^ E\<rfloor> - p = m + E" by (simp add: ilog2_unique)
  have q: "x * 2 ^ E / 2 ^ (m + E) = x / 2 ^ m" by (simp add: power_add)
  have "of_int (round_even (x / 2 ^ m)) * (2::rat) ^ (m + E) / 2 ^ E
      = of_int (round_even (x / 2 ^ m)) * 2 ^ m"
    by (simp add: power_add)
  then show ?thesis unfolding nearest_in_def Let_def k q .
qed

lemma round_even_tie: "round_even (of_int f + 1 / 2) = (if even f then f else f + 1)"
proof -
  have "\<lfloor>(of_int f + 1 / 2 :: rat)\<rfloor> = f" by (intro floor_unique) simp_all
  then show ?thesis by (simp add: round_even_def Let_def)
qed

text \<open>
  An integer beyond \<open>2 ^ 53\<close> that is no double: \<open>2 ^ 53 + 1\<close> lies half way between
  two doubles and goes to the even one.
\<close>

lemma parseInt_rounding_example: "parseInt ''9007199254740993'' = num 9007199254740992"
proof -
  have "parseInt ''9007199254740993'' = round_double 9007199254740993"
    by (simp add: parseInt_def read_sign_def is_space_def is_digit_def digits_val_def
        digit_val_def)
  moreover have "nearest_in 52 1074 9007199254740993
      = of_int (round_even (9007199254740993 / 2 ^ 1)) * 2 ^ 1"
    by (rule nearest_in_large) simp_all
  moreover have "(9007199254740993 / 2 ^ 1 :: rat) = of_int 4503599627370496 + 1 / 2" by simp
  then have "round_even (9007199254740993 / 2 ^ 1) = 4503599627370496"
    by (simp only: round_even_tie) simp
  ultimately show ?thesis by (simp add: round_double_def num_def)
qed

text \<open>The sum of the doubles of \<open>0.1\<close> and \<open>0.2\<close> is not the double of \<open>0.3\<close>.\<close>

lemma js_add_rounding_example:
  "js_add (parseFloat ''0.1'') (parseFloat ''0.2'') = Fin (5404319552844596 / 2 ^ 54)
   \<and> parseFloat ''0.3'' = Fin (5404319552844595 / 2 ^ 54)"
proof -
  have p: "parseFloat ''0.1'' = round_double (1 / 10)" "parseFloat ''0.2'' = round_double (1 / 5)"
    "parseFloat ''0.3'' = round_double (3 / 10)"
    by (simp_all add: parseFloat_def read_sign_def is_space_def is_digit_def digits_val_def
        digit_val_def read_exponent_def scale10_def)
  have "nearest_in 52 1074 (1 / 10) = of_int (round_even (1 / 10 * 2 ^ 56)) / 2 ^ 56"
    by (rule nearest_in_normal) simp_all
  moreover have "round_even (1 / 10 * 2 ^ 56) = 7205759403792794"
    by (rule round_even_up [of 7205759403792793, simplified]) simp_all
  ultimately have a: "round_double (1 / 10) = Fin (7205759403792794 / 2 ^ 56)"
    by (simp add: round_double_def)
  have "nearest_in 52 1074 (1 / 5) = of_int (round_even (1 / 5 * 2 ^ 55)) / 2 ^ 55"
    by (rule nearest_in_normal) simp_all
  moreover have "round_even (1 / 5 * 2 ^ 55) = 7205759403792794"
    by (rule round_even_up [of 7205759403792793, simplified]) simp_all
  ultimately have b: "round_double (1 / 5) = Fin (7205759403792794 / 2 ^ 55)"
    by (simp add: round_double_def)
  have "nearest_in 52 1074 (3 / 10) = of_int (round_even (3 / 10 * 2 ^ 54)) / 2 ^ 54"
    by (rule nearest_in_normal) simp_all
  moreover have "round_even (3 / 10 * 2 ^ 54) = 5404319552844595"
    by (rule round_even_down) simp_all
  ultimately have c: "round_double (3 / 10) = Fin (5404319552844595 / 2 ^ 54)"
    by (simp add: round_double_def)
  let ?s = "7205759403792794 / 2 ^ 56 + 7205759403792794 / 2 ^ 55 :: rat"
  have "nearest_in 52 1074 ?s = of_int (round_even (?s * 2 ^ 54)) / 2 ^ 54"
    by (rule nearest_in_normal) simp_all
  moreover have "?s * 2 ^ 54 = of_int 5404319552844595 + 1 / 2" by simp
  then have "round_even (?s * 2 ^ 54) = 5404319552844596"
    by (simp only: round_even_tie) simp
  ultimately have d: "round_double ?s = Fin (5404319552844596 / 2 ^ 54)"
    by (simp add: round_double_def)
  show ?thesis unfolding p a b c js_add.simps d by simp
qed













text \<open>
  The names left out above: the table has no strategy \<open>toString\<close> or \<open>constructor\<close>,
  but the property access finds the functions that every object inherits, and
  \<open>applyStrategy\<close> calls them.
\<close>

lemma applyStrategy_inherited_example:
  "applyStrategy ''test'' ''toString'' ''*'' = Inr (Str ''[object Undefined]'')
   \<and> applyStrategy ''test'' ''constructor'' ''*'' = Inr (StringObject ''test'')
   \<and> applyStrategy ''test'' ''valueOf'' ''*''
       = Inl (TypeError ''Cannot convert undefined or null to object'')"
  by (simp add: applyStrategy_def strategyName_def strategies_def get_property_def
      Object_prototype_def call_inherited_def)

section \<open>Properties of the kernel\<close>


lemma map_get_map_set: "map_get (map_set m k v) k' = (if k' = k then Some v else map_get m k')"
  by (induction m) (auto simp: map_get_def)

lemma map_delete_absent: "\<not> map_has m k \<Longrightarrow> map_delete m k = m"
  by (induction m) (auto simp: map_has_def map_delete_def)

lemma map_delete_map_set: "\<not> map_has m k \<Longrightarrow> map_delete (map_set m k v) k = m"
  by (induction m) (auto simp: map_has_def map_delete_def)

lemma map_has_iff_get: "map_has m k \<longleftrightarrow> map_get m k \<noteq> None"
  by (simp add: map_has_def map_get_def map_of_eq_None_iff)

lemma map_has_map_set: "map_has (map_set m k v) k' \<longleftrightarrow> k' = k \<or> map_has m k'"
  by (simp add: map_has_iff_get map_get_map_set)

lemma map_get_fold_set:
  "map_get (fold (\<lambda>(t, f) m. map_set m t f) regs M) t
     = (case map_of (rev regs) t of Some f \<Rightarrow> Some f | None \<Rightarrow> map_get M t)"
proof (induction regs arbitrary: M)
  case Nil
  then show ?case by simp
next
  case (Cons r regs)
  obtain t' f' where r: "r = (t', f')" by (cases r)
  show ?case
    by (simp add: r Cons map_get_map_set map_add_def split: option.splits)
qed

lemma run_install_registers_then_throws:
  "\<forall>(t, f) \<in> set regs. t \<noteq> [] \<Longrightarrow>
   run_install (map (\<lambda>(t, f). RegisterMasker t (Some f)) regs @ Throw e # rest) K
     = (Inl e, K\<lparr>maskers := fold (\<lambda>(t, f) m. map_set m t f) regs (maskers K)\<rparr>)"
proof (induction regs arbitrary: K)
  case Nil
  then show ?case by simp
next
  case (Cons r regs)
  obtain t' f' where r: "r = (t', f')" by (cases r)
  from Cons.prems have t': "t' \<noteq> []" and rest: "\<forall>(t, f) \<in> set regs. t \<noteq> []"
    by (auto simp: r)
  show ?case
    by (simp add: r t' registerMasker_def Cons.IH [OF rest])
qed

lemma registerPlugin_missing_dependency:
  assumes "name p \<noteq> []" "version p \<noteq> []" "install p = Some script"
    and "\<not> hasPlugin K (name p)" and "missing_dependency K p = Some dep"
  shows "registerPlugin K p
    = (Inl (PluginError (''Missing dependency: '' @ dep) (name p) [(''dependency'', dep)]), K)"
  using assms by (simp add: registerPlugin_def hasPlugin_def)

lemma missing_dependency_Some:
  "missing_dependency K p = Some dep \<Longrightarrow>
     \<exists>deps. dependencies p = Some deps \<and> dep \<in> set deps \<and> \<not> hasPlugin K dep"
  by (auto simp: missing_dependency_def hasPlugin_def find_Some_iff split: option.splits)

text \<open>
  C5. A well-formed plugin that declares the dependency \<open>locale-tr\<close> is registered
  into a kernel without plugins: the registration fails, the error names the missing
  dependency and the kernel is unchanged, as the claim says; but the error thrown is the
  generic \<open>PluginError\<close>, with the code \<open>PLUGIN_ERROR\<close>, and not the
  \<open>PluginDependencyError\<close> that the errors module provides for this case.
\<close>

theorem registerPlugin_missing_dependency_example:
  "registerPlugin (new_kernel ())
     \<lparr>name = ''my-plugin'', version = ''1.0.0'', dependencies = Some [''locale-tr''],
      install = Some [], onInit = None, onDestroy = None, onError = None\<rparr>
   = (Inl (PluginError ''Missing dependency: locale-tr'' ''my-plugin''
             [(''dependency'', ''locale-tr'')]),
      new_kernel ())
   \<and> code (PluginError ''Missing dependency: locale-tr'' ''my-plugin''
             [(''dependency'', ''locale-tr'')]) = Some ''PLUGIN_ERROR''"
  by (simp add: registerPlugin_def new_kernel_def missing_dependency_def map_has_def)

text \<open>
  C9. A plugin passes the checks of \<open>registerPlugin\<close>; its \<open>install\<close> registers
  the maskers \<open>regs\<close> (one or more, under non-empty types) and then throws. The call
  fails with a \<open>PluginInitError\<close>, the plugin registry is what it was before the call
  (the plugin is not in it), and the masker registry is not rolled back: every type of
  \<open>regs\<close> is registered, with the masker registered last under it, and the other
  types are as before.
\<close>

theorem registerPlugin_install_failure:
  assumes "name p \<noteq> []" and "version p \<noteq> []"
    and "install p = Some (map (\<lambda>(t, f). RegisterMasker t (Some f)) regs @ Throw e # rest)"
    and "\<not> hasPlugin K (name p)"
    and "missing_dependency K p = None"
    and "regs \<noteq> []" and "\<forall>(t, f) \<in> set regs. t \<noteq> []"
  shows "(\<exists>m cause. fst (registerPlugin K p) = Inl (PluginInitError m (name p) cause))
    \<and> plugins (snd (registerPlugin K p)) = plugins K
    \<and> \<not> hasPlugin (snd (registerPlugin K p)) (name p)
    \<and> (\<forall>(t, f) \<in> set regs. hasMasker (snd (registerPlugin K p)) t)
    \<and> (\<forall>t. getMasker (snd (registerPlugin K p)) t
           = (case map_of (rev regs) t of Some f \<Rightarrow> Some f | None \<Rightarrow> getMasker K t))"
proof -
  define K1 where "K1 = K\<lparr>plugins := map_set (plugins K) (name p) p\<rparr>"
  define M where "M = fold (\<lambda>(t, f) m. map_set m t f) regs (maskers K)"
  have run: "run_install (map (\<lambda>(t, f). RegisterMasker t (Some f)) regs @ Throw e # rest) K1
    = (Inl e, K1\<lparr>maskers := M\<rparr>)"
    using run_install_registers_then_throws [OF assms(7), of e rest K1]
    by (simp add: M_def K1_def)
  have absent: "\<not> map_has (plugins K) (name p)" using assms(4) by (simp add: hasPlugin_def)
  have snd_eq: "snd (registerPlugin K p) = K\<lparr>maskers := M\<rparr>"
    using assms(1,2,3,5) absent run
    by (simp add: registerPlugin_def K1_def [symmetric])
       (simp add: K1_def map_delete_map_set)
  have fst_eq: "\<exists>m cause. fst (registerPlugin K p) = Inl (PluginInitError m (name p) cause)"
    using assms(1,2,3,5) absent run
    by (simp add: registerPlugin_def K1_def [symmetric])
  have get: "getMasker (K\<lparr>maskers := M\<rparr>) t
           = (case map_of (rev regs) t of Some f \<Rightarrow> Some f | None \<Rightarrow> getMasker K t)" for t
    by (simp add: getMasker_def M_def map_get_fold_set split: option.splits)
  have has: "hasMasker (K\<lparr>maskers := M\<rparr>) t" if "(t, f) \<in> set regs" for t f
  proof -
    from that have "t \<in> fst ` set (rev regs)" by force
    then obtain g where "map_of (rev regs) t = Some g"
      by (metis domD dom_map_of_conv_image_fst)
    then have "getMasker (K\<lparr>maskers := M\<rparr>) t = Some g" by (simp add: get)
    then show ?thesis by (simp add: hasMasker_def getMasker_def map_has_iff_get)
  qed
  show ?thesis
    unfolding snd_eq using fst_eq get has absent
    by (auto simp: hasPlugin_def)
qed



theorem registerPlugin_install_failure_witness:
  "hasMasker (snd (registerPlugin (new_kernel ())
       \<lparr>name = ''cards'', version = ''1.0.0'', dependencies = None,
        install = Some [RegisterMasker ''card'' (Some (\<lambda>s opts. Inr s)), Throw (Error ''bad'')],
        onInit = None, onDestroy = None, onError = None\<rparr>)) ''card''
   \<and> plugins (snd (registerPlugin (new_kernel ())
       \<lparr>name = ''cards'', version = ''1.0.0'', dependencies = None,
        install = Some [RegisterMasker ''card'' (Some (\<lambda>s opts. Inr s)), Throw (Error ''bad'')],
        onInit = None, onDestroy = None, onError = None\<rparr>)) = []"
  using registerPlugin_install_failure
    [where K = "new_kernel ()" and e = "Error ''bad''" and rest = "[]"
       and regs = "[(''card'', \<lambda>s opts. Inr s)]"
       and p = "\<lparr>name = ''cards'', version = ''1.0.0'', dependencies = None,
        install = Some [RegisterMasker ''card'' (Some (\<lambda>s opts. Inr s)), Throw (Error ''bad'')],
        onInit = None, onDestroy = None, onError = None\<rparr>"]
  by (simp add: hasPlugin_def map_has_def new_kernel_def missing_dependency_def)

lemma report_error_calls:
  "report_error p error = (calls, r) \<Longrightarrow> c \<in> set calls \<Longrightarrow>
     c = OnError (name p) error \<and> onError p \<noteq> None \<and> instanceof_Error error"
  by (auto simp: report_error_def split: option.splits if_splits)

lemma start_plugins_reports_only_throws:
  "start_plugins ctx ps acc = (r, calls) \<Longrightarrow> OnError n error \<in> set calls \<Longrightarrow>
     \<exists>p hook. p \<in> snd ` set ps \<and> name p = n \<and> onInit p = Some hook \<and> hook ctx = Throws error"
proof (induction ps arbitrary: acc r calls)
  case Nil
  then show ?case by simp
next
  case (Cons np ps)
  obtain n' p where np: "np = (n', p)" by (cases np)
  show ?case
  proof (cases "onInit p")
    case None
    with Cons np show ?thesis by fastforce
  next
    case (Some hook)
    show ?thesis
    proof (cases "hook ctx")
      case Returns
      with Cons.prems np Some obtain calls' where
        "start_plugins ctx ps acc = (r, calls')" "calls = OnInit (name p) # calls'"
        by (auto split: prod.splits)
      with Cons.IH Cons.prems(2) show ?thesis by fastforce
    next
      case (ReturnsPromise q)
      with Cons.prems np Some obtain calls' where
        "start_plugins ctx ps (acc @ [q]) = (r, calls')" "calls = OnInit (name p) # calls'"
        by (auto split: prod.splits)
      with Cons.IH Cons.prems(2) show ?thesis by fastforce
    next
      case (Throws e)
      with Cons.prems np Some obtain calls' r' where
        rep: "report_error p e = (calls', r')" and c: "calls = OnInit (name p) # calls'"
        by (auto split: prod.splits option.splits)
      with Cons.prems(2) have "OnError n error \<in> set calls'" by simp
      from report_error_calls [OF rep this] have "n = name p" "error = e" by simp_all
      with Some Throws np show ?thesis by force
    qed
  qed
qed

lemma initialize_rejected_uninitialized:
  "initialize K = (Rejected error, K', calls) \<Longrightarrow> \<not> isInitialized K'"
  by (auto simp: initialize_def isInitialized_def split: if_splits prod.splits outcome.splits)

lemma initialize_reports_only_throws:
  assumes "initialize K = (r, K', calls)" and "OnError n error \<in> set calls"
  shows "\<exists>p hook. p \<in> snd ` set (plugins K) \<and> name p = n \<and> onInit p = Some hook
            \<and> hook (context K) = Throws error"
proof -
  obtain r0 where "start_plugins (context K) (plugins K) [] = (r0, calls)"
    using assms
    by (auto simp: initialize_def doInitialize_def split: if_splits prod.splits outcome.splits sum.splits)
  from start_plugins_reports_only_throws [OF this assms(2)] show ?thesis .
qed

text \<open>
  C4. One plugin with an \<open>onError\<close> hook is registered, and the kernel is
  initialized. When \<open>onInit\<close> returns a promise that rejects, \<open>initialize\<close> rejects
  with the error and the kernel stays uninitialized, as the claim says, but no hook other
  than \<open>onInit\<close> is called: the rejection reaches \<open>Promise.all\<close>, outside the
  \<open>try\<close> block that reports errors. When \<open>onInit\<close> throws the same error instead,
  \<open>onError\<close> is called with it.
\<close>

theorem initialize_async_rejection_example:
  "initialize (snd (registerPlugin (new_kernel ())
       \<lparr>name = ''p'', version = ''1.0.0'', dependencies = None, install = Some [],
        onInit = Some (\<lambda>ctx. ReturnsPromise (Rejects 0 (Error ''boom''))),
        onDestroy = None, onError = Some (\<lambda>error. None)\<rparr>))
   = (Rejected (Error ''boom''),
      snd (registerPlugin (new_kernel ())
       \<lparr>name = ''p'', version = ''1.0.0'', dependencies = None, install = Some [],
        onInit = Some (\<lambda>ctx. ReturnsPromise (Rejects 0 (Error ''boom''))),
        onDestroy = None, onError = Some (\<lambda>error. None)\<rparr>),
      [OnInit ''p''])
   \<and> initialize (snd (registerPlugin (new_kernel ())
       \<lparr>name = ''p'', version = ''1.0.0'', dependencies = None, install = Some [],
        onInit = Some (\<lambda>ctx. Throws (Error ''boom'')),
        onDestroy = None, onError = Some (\<lambda>error. None)\<rparr>))
   = (Rejected (Error ''boom''),
      snd (registerPlugin (new_kernel ())
       \<lparr>name = ''p'', version = ''1.0.0'', dependencies = None, install = Some [],
        onInit = Some (\<lambda>ctx. Throws (Error ''boom'')),
        onDestroy = None, onError = Some (\<lambda>error. None)\<rparr>),
      [OnInit ''p'', OnError ''p'' (Error ''boom'')])"
  by (simp add: initialize_def doInitialize_def registerPlugin_def new_kernel_def
      missing_dependency_def map_has_def Promise_all_def report_error_def)

section \<open>Properties of the traversal engine\<close>

lemma traverse_self_array_diverges:
  "h a = Arr (VRef a # rest) \<Longrightarrow> maskArrays opts \<noteq> Some False \<Longrightarrow> \<not> visited_has visited a
    \<Longrightarrow> traverse n K h opts path visited (VRef a) = None"
  by (induction n) (simp_all add: traverseArray_def)

text \<open>
  C1. The input is an array whose only element is the array itself
  (\<open>const a = []; a.push(a)\<close>), traversed with the options and the context of the
  entry point. Whatever bound \<open>n\<close> is put on the nesting of the calls, the traversal
  needs a deeper one: it recurses without end. \<open>traverseArray\<close> looks its array up in
  the visited set, but only \<open>traverseObject\<close> ever adds to that set, so the check
  never succeeds for an array. (An object that refers to itself is stopped by the
  check, see \<open>traverse_self_referencing_object\<close> below.)
\<close>

theorem traverse_self_referencing_array:
  "traverse n (new_kernel ()) ((\<lambda>a. Obj Plain [])(0 := Arr [VRef 0]))
     \<lparr>strategy = None, format = None, char = Some ''*'', fields_opt = Some [],
      deep = Some True, maskArrays = Some True\<rparr> None None (VRef 0) = None"
  by (rule traverse_self_array_diverges) simp_all

lemma traverse_self_referencing_object:
  "traverse 2 (new_kernel ())
     ((\<lambda>a. Obj Plain [])(0 := Obj Plain [(''name'', VStr ''John Doe''), (''self'', VRef 0)]))
     \<lparr>strategy = None, format = None, char = Some ''*'', fields_opt = Some [],
      deep = Some True, maskArrays = Some True\<rparr> None None (VRef 0)
   = Some (Inr (NewObj None [(''name'', Keep (VStr ''John Doe'')), (''self'', Keep (VRef 0))],
                Some {0}))"
  by (simp add: eval_nat_numeral traverseObject_def traverse_entry_def child_path_def
      findMaskerForField_def get_property_def Object_prototype_def
      assigned_proto_def own_entries_def map_get_def)

























lemma traverse_example:
  "traverse 2 ((new_kernel ())\<lparr>maskers := [(''email'', \<lambda>s opts. Inr ''x***@y.com'')]\<rparr>)
     ((\<lambda>a. Obj Plain [])(0 := Obj Plain [(''a'', VRef 1), (''c'', VStr ''x@y.com'')],
                     1 := Obj Plain [(''b'', VStr ''x@y.com'')]))
     \<lparr>strategy = None, format = None, char = Some ''*'',
      fields_opt = Some [(''a.b'', ''email'')], deep = Some True, maskArrays = Some True\<rparr>
     None None (VRef 0)
   = Some (Inr (NewObj None [(''a'', NewObj None [(''b'', Keep (VStr ''x***@y.com''))]),
                        (''c'', Keep (VStr ''x@y.com''))], Some {0, 1}))"
  by (simp add: eval_nat_numeral traverseObject_def traverse_entry_def child_path_def
      findMaskerForField_def get_property_def Object_prototype_def
      assigned_proto_def own_entries_def map_get_def matchesPath_def endsWith_def executeMask_def
      new_kernel_def insert_commute)







lemma traverse_shared_example:
  "traverse 2 ((new_kernel ())\<lparr>maskers := [(''email'', \<lambda>s opts. Inr ''***'')]\<rparr>)
     ((\<lambda>a. Obj Plain [])(0 := Obj Plain [(''first'', VRef 1), (''second'', VRef 1)],
                     1 := Obj Plain [(''email'', VStr ''a@b.c'')]))
     \<lparr>strategy = None, format = None, char = Some ''*'',
      fields_opt = Some [(''first.email'', ''email''), (''second.email'', ''email'')],
      deep = Some True, maskArrays = Some True\<rparr>
     None None (VRef 0)
   = Some (Inr (NewObj None [(''first'', NewObj None [(''email'', Keep (VStr ''***''))]),
                        (''second'', Keep (VRef 1))], Some {0, 1}))"
  by (simp add: eval_nat_numeral traverseObject_def traverse_entry_def child_path_def
      findMaskerForField_def get_property_def Object_prototype_def
      assigned_proto_def own_entries_def map_get_def matchesPath_def endsWith_def executeMask_def
      new_kernel_def insert_commute)


text \<open>
  A string under a key that is the name of a property the field mapping inherits: the
  exact match of \<open>findMaskerForField\<close> finds that property, and the kernel knows no
  masker for it.
\<close>

lemma traverse_inherited_field_example:
  "traverse 1 (new_kernel ()) (empty_heap(0 := Obj Plain [(''constructor'', VStr ''x'')]))
     \<lparr>strategy = None, format = None, char = Some ''*'', fields_opt = Some [],
      deep = Some True, maskArrays = Some True\<rparr> None None (VRef 0)
   = Some (Inl (MaskerNotFoundError (Inherited ''constructor'')))"
  by (simp add: empty_heap_def traverseObject_def traverse_entry_def child_path_def
      findMaskerForField_def get_property_def Object_prototype_def executeMask_def)

end
